theory Spec2Isabelle
  imports Complex_Main
begin

section \<open>Values, exceptions and containers\<close>

text \<open>
  The script \<^verbatim>\<open>extract_embeddings.py\<close> is a linear pipeline around two pretrained
  models. Its own code is bookkeeping: a greedy word-to-token cursor, a per-row
  dictionary of statistics, and a chain of exception handlers. The embedding below
  follows that code function by function. Library calls (the tokenizer, the language
  model, the audio decoder, the plotting back end) are parameters of the functions that
  use them; Python exceptions are values of the type \<open>exn\<close> and a function that may
  raise returns \<open>exn + 'a\<close>. A finite float is read as the real number it denotes; the
  floating-point arithmetic of NumPy is not modelled, its reductions are parameters. A
  character of a string is a code point below 256.
\<close>

datatype exn_class =
  FileNotFoundError | RuntimeError | KeyboardInterrupt | SystemExit
  | IndexError | OSError | OtherException

datatype exn = Exn (cls: exn_class) (msg: string)

text \<open>\<^verbatim>\<open>isinstance(e, Exception)\<close>: everything but the two classes that derive from
  \<^verbatim>\<open>BaseException\<close> directly.\<close>

fun is_Exception :: "exn_class \<Rightarrow> bool" where
  "is_Exception KeyboardInterrupt = False"
| "is_Exception SystemExit = False"
| "is_Exception _ = True"

text \<open>\<^verbatim>\<open>str(n)\<close> for a non-negative integer, as the f-strings of the source use it.\<close>

definition digit_char :: "nat \<Rightarrow> char" where
  "digit_char d = ''0123456789'' ! d"

fun str_nat :: "nat \<Rightarrow> string" where
  "str_nat n = (if n < 10 then [digit_char n] else str_nat (n div 10) @ [digit_char (n mod 10)])"

declare str_nat.simps [simp del]

text \<open>A Python list read \<^verbatim>\<open>xs[i]\<close> with a non-negative index.\<close>

definition list_get :: "'a list \<Rightarrow> nat \<Rightarrow> exn + 'a" where
  "list_get xs i =
     (if i < length xs then Inr (xs ! i) else Inl (Exn IndexError ''list index out of range''))"

text \<open>A cell of a table: a string or a float. A float is a finite value, one of the two
  infinities, or the float that is not a number.\<close>

datatype cell = Str string | Num real | PosInf | NegInf | NaN

text \<open>
  A Python \<^verbatim>\<open>dict\<close> with string keys keeps insertion order; the assignment \<^verbatim>\<open>d[k] = v\<close>
  overwrites the value of a key that is present, in place, and appends a new key.
\<close>

type_synonym row = "(string \<times> cell) list"

fun dict_set :: "('k \<times> 'v) list \<Rightarrow> 'k \<Rightarrow> 'v \<Rightarrow> ('k \<times> 'v) list" where
  "dict_set [] k v = [(k, v)]"
| "dict_set ((k', v') # d) k v =
     (if k' = k then (k, v) # d else (k', v') # dict_set d k v)"

definition dict_keys :: "('k \<times> 'v) list \<Rightarrow> 'k list" where
  "dict_keys d = map fst d"

text \<open>A loop whose body may raise: the first exception ends it.\<close>

fun fold_exn :: "('s \<Rightarrow> 'a \<Rightarrow> exn + 's) \<Rightarrow> 's \<Rightarrow> 'a list \<Rightarrow> exn + 's" where
  "fold_exn f s [] = Inr s"
| "fold_exn f s (x # xs) = (case f s x of Inl e \<Rightarrow> Inl e | Inr s' \<Rightarrow> fold_exn f s' xs)"

section \<open>Arrays\<close>

text \<open>
  The embedding array handed to the aligner is three-dimensional: token position, layer,
  hidden dimension. \<^verbatim>\<open>embeddings[t, l, :]\<close> raises \<^verbatim>\<open>IndexError\<close> when \<open>t\<close> or \<open>l\<close> is
  out of range.
\<close>

record ndarray3 =
  shape0 :: nat
  shape1 :: nat
  shape2 :: nat
  elems :: "nat \<Rightarrow> nat \<Rightarrow> nat \<Rightarrow> real"

definition axis_error :: "nat \<Rightarrow> nat \<Rightarrow> nat \<Rightarrow> exn" where
  "axis_error i ax n =
     Exn IndexError (''index '' @ str_nat i @ '' is out of bounds for axis '' @ str_nat ax
       @ '' with size '' @ str_nat n)"

definition nd_vector :: "ndarray3 \<Rightarrow> nat \<Rightarrow> nat \<Rightarrow> exn + real list" where
  "nd_vector a t l =
     (if shape0 a \<le> t then Inl (axis_error t 0 (shape0 a))
      else if shape1 a \<le> l then Inl (axis_error l 1 (shape1 a))
      else Inr (map (elems a t l) [0..<shape2 a]))"

text \<open>
  \<^verbatim>\<open>np.mean\<close>, \<^verbatim>\<open>np.std\<close> and \<^verbatim>\<open>np.linalg.norm\<close> are NumPy's: they compute in floating
  point, round, and may return \<^verbatim>\<open>nan\<close> or an infinity. They are parameters of the functions
  that call them, as the tokenizer is, and what they return is a cell.
\<close>

record numpy_lib =
  np_mean :: "real list \<Rightarrow> cell"
  np_std :: "real list \<Rightarrow> cell"
  np_linalg_norm :: "real list \<Rightarrow> cell"

section \<open>The aligner\<close>

text \<open>A transcribed word; the source's key \<^verbatim>\<open>"end"\<close> is the field \<open>end_time\<close>.\<close>

record word_info =
  word :: string
  start :: real
  end_time :: real

text \<open>An entry of \<^verbatim>\<open>token_positions\<close>.\<close>

record token_position =
  pos_word :: string
  pos_start :: real
  pos_end :: real
  token_idx :: nat

text \<open>
  The inner loop \<^verbatim>\<open>for _ in word_tokens\<close> of \<^verbatim>\<open>align_embeddings_to_words\<close>. The state is
  the list \<^verbatim>\<open>token_positions\<close> and the cursor \<^verbatim>\<open>current_pos\<close>; \<open>n\<close> is \<^verbatim>\<open>len(tokens)\<close>.
\<close>

fun word_loop :: "word_info \<Rightarrow> nat \<Rightarrow> 'i list \<Rightarrow> token_position list \<times> nat
    \<Rightarrow> token_position list \<times> nat" where
  "word_loop w n [] st = st"
| "word_loop w n (_ # word_tokens) (token_positions, current_pos) =
     word_loop w n word_tokens
       (if current_pos < n
        then (token_positions @
               [\<lparr>pos_word = word w, pos_start = start w, pos_end = end_time w,
                 token_idx = current_pos\<rparr>],
              current_pos + 1)
        else (token_positions, current_pos))"

text \<open>The outer loop over the words; \<open>encode\<close> is
  \<^verbatim>\<open>tokenizer.encode(word, add_special_tokens=False)\<close>, applied to the word alone.\<close>

definition align_loop :: "(string \<Rightarrow> 'i list) \<Rightarrow> word_info list \<Rightarrow> nat
    \<Rightarrow> token_position list \<times> nat" where
  "align_loop encode words_with_timestamps n =
     foldl (\<lambda>st w. word_loop w n (encode (word w)) st) ([], 0) words_with_timestamps"

definition token_positions :: "(string \<Rightarrow> 'i list) \<Rightarrow> word_info list \<Rightarrow> string list
    \<Rightarrow> token_position list" where
  "token_positions encode words_with_timestamps tokens =
     fst (align_loop encode words_with_timestamps (length tokens))"

text \<open>\<^verbatim>\<open>s.replace("\n", "\\n")\<close>: every line feed becomes a backslash and the letter n.\<close>

definition escape_newlines :: "string \<Rightarrow> string" where
  "escape_newlines s = concat (map (\<lambda>c. if c = CHR 0x0A then [CHR 0x5C, CHR ''n''] else [c]) s)"

definition layer_col :: "nat \<Rightarrow> string \<Rightarrow> string" where
  "layer_col layer_idx metric = ''layer_'' @ str_nat layer_idx @ ''_'' @ metric"

text \<open>The body of \<^verbatim>\<open>for layer_idx in range(embeddings.shape[1])\<close>.\<close>

definition layer_step :: "numpy_lib \<Rightarrow> ndarray3 \<Rightarrow> nat \<Rightarrow> row \<Rightarrow> nat \<Rightarrow> exn + row" where
  "layer_step np embeddings tidx r layer_idx =
     (case nd_vector embeddings tidx layer_idx of
        Inl e \<Rightarrow> Inl e
      | Inr layer_emb \<Rightarrow>
          Inr (dict_set
                (dict_set
                  (dict_set r (layer_col layer_idx ''mean'') (np_mean np layer_emb))
                  (layer_col layer_idx ''std'') (np_std np layer_emb))
                (layer_col layer_idx ''norm'') (np_linalg_norm np layer_emb)))"

text \<open>The body of \<^verbatim>\<open>for pos in token_positions\<close>, up to \<^verbatim>\<open>rows.append(row)\<close>.\<close>

definition build_row :: "numpy_lib \<Rightarrow> string list \<Rightarrow> ndarray3 \<Rightarrow> token_position
    \<Rightarrow> exn + row" where
  "build_row np tokens embeddings pos =
     (case list_get tokens (token_idx pos) of
        Inl e \<Rightarrow> Inl e
      | Inr tok \<Rightarrow>
          fold_exn (layer_step np embeddings (token_idx pos))
            [(''timestamp'', Num (pos_start pos)),
             (''word'', Str (pos_word pos)),
             (''token'', Str (escape_newlines tok))]
            [0..<shape1 embeddings])"

definition build_rows :: "numpy_lib \<Rightarrow> string list \<Rightarrow> ndarray3 \<Rightarrow> token_position list
    \<Rightarrow> exn + row list" where
  "build_rows np tokens embeddings tps =
     fold_exn (\<lambda>rows pos. case build_row np tokens embeddings pos of
                  Inl e \<Rightarrow> Inl e | Inr r \<Rightarrow> Inr (rows @ [r])) [] tps"

text \<open>
  \<^verbatim>\<open>pd.DataFrame(rows)\<close> for a list of dictionaries: the columns are the keys in order of
  first appearance, and a row that lacks a column holds no value there.
\<close>

record dataframe =
  columns :: "string list"
  records :: "cell option list list"

definition first_seen :: "'a list \<Rightarrow> 'a list" where
  "first_seen xs = foldl (\<lambda>acc x. if x \<in> set acc then acc else acc @ [x]) [] xs"

definition DataFrame :: "row list \<Rightarrow> dataframe" where
  "DataFrame rows =
     (let cols = first_seen (concat (map dict_keys rows))
      in \<lparr>columns = cols, records = map (\<lambda>r. map (map_of r) cols) rows\<rparr>)"

text \<open>
  The function as a whole: the positions, then the rows, then the table, returned with
  the two arguments it was given. The source also joins the words into \<^verbatim>\<open>full_text\<close>,
  which it never uses; its two progress messages are printed by \<open>align_stage\<close> below.
\<close>

definition align_embeddings_to_words :: "numpy_lib \<Rightarrow> (string \<Rightarrow> 'i list) \<Rightarrow> word_info list
    \<Rightarrow> string list \<Rightarrow> ndarray3 \<Rightarrow> exn + dataframe \<times> ndarray3 \<times> string list" where
  "align_embeddings_to_words np encode words_with_timestamps tokens embeddings =
     (case build_rows np tokens embeddings (token_positions encode words_with_timestamps tokens) of
        Inl e \<Rightarrow> Inl e
      | Inr rows \<Rightarrow> Inr (DataFrame rows, embeddings, tokens))"

text \<open>\<^verbatim>\<open>df[c][r]\<close>: the value of column \<open>c\<close> in row \<open>r\<close>, if the table has both.\<close>

definition df_at :: "dataframe \<Rightarrow> nat \<Rightarrow> string \<Rightarrow> cell option" where
  "df_at df r c =
     (if r < length (records df)
      then (case map_of (zip (columns df) (records df ! r)) c of
              Some (Some v) \<Rightarrow> Some v | _ \<Rightarrow> None)
      else None)"

subsection \<open>The alignment as the specification words it\<close>

text \<open>
  The specification's algorithm, written from its sentences and not from the code: one
  cursor; for each word the count of its isolated re-tokenization; for each unit of the
  count, while the cursor is inside the token sequence, one row of the word's timestamp,
  the word's text and the token string at the cursor, and the cursor moves on by one.
\<close>

fun greedy_emit :: "string list \<Rightarrow> word_info \<Rightarrow> nat \<Rightarrow> nat
    \<Rightarrow> (real \<times> string \<times> string) list \<times> nat" where
  "greedy_emit tokens w 0 cursor = ([], cursor)"
| "greedy_emit tokens w (Suc k) cursor =
     (if cursor < length tokens
      then (case greedy_emit tokens w k (cursor + 1) of
              (rs, c) \<Rightarrow> ((start w, word w, tokens ! cursor) # rs, c))
      else greedy_emit tokens w k cursor)"

fun greedy_align :: "(string \<Rightarrow> 'i list) \<Rightarrow> string list \<Rightarrow> word_info list \<Rightarrow> nat
    \<Rightarrow> (real \<times> string \<times> string) list" where
  "greedy_align encode tokens [] cursor = []"
| "greedy_align encode tokens (w # ws) cursor =
     (case greedy_emit tokens w (length (encode (word w))) cursor of
        (rs, c) \<Rightarrow> rs @ greedy_align encode tokens ws c)"

text \<open>The number of tokens the words claim together, each re-tokenized alone.\<close>

definition total_count :: "(string \<Rightarrow> 'i list) \<Rightarrow> word_info list \<Rightarrow> nat" where
  "total_count encode ws = sum_list (map (\<lambda>w. length (encode (word w))) ws)"

text \<open>The entry the inner loop appends for word \<open>w\<close> at cursor \<open>i\<close>, and the row the
  second loop builds from an entry when no read fails.\<close>

definition mk_pos :: "word_info \<Rightarrow> nat \<Rightarrow> token_position" where
  "mk_pos w i = \<lparr>pos_word = word w, pos_start = start w, pos_end = end_time w, token_idx = i\<rparr>"

text \<open>What an entry stands for: the word's timestamp and text and the token it points at.\<close>

definition pos_triple :: "string list \<Rightarrow> token_position \<Rightarrow> real \<times> string \<times> string" where
  "pos_triple tokens p = (pos_start p, pos_word p, tokens ! token_idx p)"

definition layer_cells :: "numpy_lib \<Rightarrow> ndarray3 \<Rightarrow> nat \<Rightarrow> nat \<Rightarrow> row" where
  "layer_cells np a t l =
     (let v = map (elems a t l) [0..<shape2 a]
      in [(layer_col l ''mean'', np_mean np v),
          (layer_col l ''std'', np_std np v),
          (layer_col l ''norm'', np_linalg_norm np v)])"

definition row_of :: "numpy_lib \<Rightarrow> string list \<Rightarrow> ndarray3 \<Rightarrow> token_position \<Rightarrow> row" where
  "row_of np tokens a pos =
     [(''timestamp'', Num (pos_start pos)),
      (''word'', Str (pos_word pos)),
      (''token'', Str (escape_newlines (tokens ! token_idx pos)))]
     @ concat (map (layer_cells np a (token_idx pos)) [0..<shape1 a])"

text \<open>The first three cells of a row as the specification states them (the token string
  itself) and as the code writes them (line feeds escaped).\<close>

definition stated_cells :: "real \<times> string \<times> string \<Rightarrow> cell option list" where
  "stated_cells x = (case x of (ts, w, tok) \<Rightarrow> [Some (Num ts), Some (Str w), Some (Str tok)])"

definition escaped_cells :: "real \<times> string \<times> string \<Rightarrow> cell option list" where
  "escaped_cells x =
     (case x of (ts, w, tok) \<Rightarrow> [Some (Num ts), Some (Str w), Some (Str (escape_newlines tok))])"

definition aligned_columns :: "nat \<Rightarrow> string list" where
  "aligned_columns n =
     [''timestamp'', ''word'', ''token'']
     @ concat (map (\<lambda>l. [layer_col l ''mean'', layer_col l ''std'', layer_col l ''norm'']) [0..<n])"

section \<open>The world outside: files and the two output streams\<close>

text \<open>
  A path is the list of its components. The file system is the set of directories and
  the files with what was written to them; the empty path (the directory the path
  strings are resolved from) always exists. Permissions and device errors are outside
  the model. \<^verbatim>\<open>print\<close> appends one entry to the stream it writes to.
\<close>

type_synonym path = "string list"

datatype file_data =
    CsvFile "string list" "cell option list list"
  | NpyFile ndarray3
  | ImageFile "string list" "cell option list list" string
  | OtherFile

record world =
  dirs :: "path set"
  files :: "path \<Rightarrow> file_data option"
  stdout :: "string list"
  stderr :: "string list"

type_synonym 'a io = "(exn + 'a) \<times> world"

definition print :: "world \<Rightarrow> string \<Rightarrow> world" where
  "print w s = w\<lparr>stdout := stdout w @ [s]\<rparr>"

definition eprint :: "world \<Rightarrow> string \<Rightarrow> world" where
  "eprint w s = w\<lparr>stderr := stderr w @ [s]\<rparr>"

definition is_dir :: "world \<Rightarrow> path \<Rightarrow> bool" where
  "is_dir w p = (p = [] \<or> p \<in> dirs w)"

text \<open>Whether a path names a directory or a file.\<close>

definition path_exists :: "world \<Rightarrow> path \<Rightarrow> bool" where
  "path_exists w p = (is_dir w p \<or> files w p \<noteq> None)"

text \<open>A path string between quotes, as the messages of \<^verbatim>\<open>OSError\<close> show it.\<close>

definition quoted :: "string \<Rightarrow> string" where
  "quoted s = [CHR 0x27] @ s @ [CHR 0x27]"

fun str_path :: "path \<Rightarrow> string" where
  "str_path [] = ''.''"
| "str_path [c] = c"
| "str_path (c # cs) = c @ ''/'' @ str_path cs"

text \<open>The path itself and the directories above it, outermost first.\<close>

definition ancestors :: "path \<Rightarrow> path list" where
  "ancestors p = map (\<lambda>n. take n p) [1..<Suc (length p)]"

text \<open>
  \<^verbatim>\<open>Path.mkdir(parents=True, exist_ok=True)\<close>: every missing directory on the way is
  created. A regular file on the way makes it raise before anything is created:
  \<^verbatim>\<open>NotADirectoryError\<close> when the file is above the path, \<^verbatim>\<open>FileExistsError\<close> when the
  file is the path itself; both are \<^verbatim>\<open>OSError\<close>.
\<close>

definition mkdir_parents :: "world \<Rightarrow> path \<Rightarrow> unit io" where
  "mkdir_parents w p =
     (if list_ex (\<lambda>q. files w q \<noteq> None) (ancestors p)
      then (Inl (Exn OSError
                  (if list_ex (\<lambda>q. files w q \<noteq> None) (ancestors (butlast p))
                   then ''[Errno 20] Not a directory: '' @ quoted (str_path p)
                   else ''[Errno 17] File exists: '' @ quoted (str_path p))), w)
      else (Inr (), w\<lparr>dirs := dirs w \<union> set (ancestors p)\<rparr>))"

text \<open>Opening a path for writing: the exception it raises, if any.\<close>

definition open_error :: "world \<Rightarrow> path \<Rightarrow> exn option" where
  "open_error w p =
     (if is_dir w p
        then Some (Exn OSError (''[Errno 21] Is a directory: '' @ quoted (str_path p)))
      else if is_dir w (butlast p) then None
      else if files w (butlast p) \<noteq> None
        then Some (Exn OSError (''[Errno 20] Not a directory: '' @ quoted (str_path p)))
      else Some (Exn FileNotFoundError
                   (''[Errno 2] No such file or directory: '' @ quoted (str_path p))))"

definition write_file :: "world \<Rightarrow> path \<Rightarrow> file_data \<Rightarrow> unit io" where
  "write_file w p d =
     (case open_error w p of
        Some e \<Rightarrow> (Inl e, w)
      | None \<Rightarrow> (Inr (), w\<lparr>files := (files w)(p \<mapsto> d)\<rparr>))"

text \<open>\<^verbatim>\<open>df.to_csv(path, index=False)\<close>: pandas refuses a path whose parent is not a
  directory, then writes the header row (the column names) and one row per record.\<close>

definition to_csv :: "world \<Rightarrow> dataframe \<Rightarrow> path \<Rightarrow> unit io" where
  "to_csv w df p =
     (if \<not> is_dir w (butlast p)
      then (Inl (Exn OSError (''Cannot save file into a non-existent directory: ''
                @ quoted (str_path (butlast p)))), w)
      else write_file w p (CsvFile (columns df) (records df)))"

definition ends_with :: "string \<Rightarrow> string \<Rightarrow> bool" where
  "ends_with s suffix = (length suffix \<le> length s \<and> drop (length s - length suffix) s = suffix)"

text \<open>\<^verbatim>\<open>np.save(path, arr)\<close> appends \<^verbatim>\<open>.npy\<close> to a file name that does not end with it.\<close>

definition np_save :: "world \<Rightarrow> path \<Rightarrow> ndarray3 \<Rightarrow> unit io" where
  "np_save w p arr =
     (let name = (if p = [] then [] else last p);
          target = (if ends_with name ''.npy'' then p else butlast p @ [name @ ''.npy''])
      in write_file w target (NpyFile arr))"

text \<open>\<^verbatim>\<open>s.replace(old, new)\<close> for a non-empty \<open>old\<close>: leftmost matches, not overlapping.\<close>

function str_replace :: "string \<Rightarrow> string \<Rightarrow> string \<Rightarrow> string" where
  "str_replace old new [] = []"
| "str_replace old new (c # s) =
     (if old \<noteq> [] \<and> take (length old) (c # s) = old
      then new @ str_replace old new (drop (length old) (c # s))
      else c # str_replace old new s)"
  by pat_completeness auto
termination
  by (relation "measure (\<lambda>(old, new, s). length s)") (auto simp: neq_Nil_conv)

text \<open>\<^verbatim>\<open>s.strip()\<close>: white space removed at both ends. These are the code points below 256
  that \<^verbatim>\<open>str.isspace\<close> accepts, the next line character and the no-break space among them.\<close>

definition is_space :: "char \<Rightarrow> bool" where
  "is_space c = (c \<in> set [CHR 0x20, CHR 0x09, CHR 0x0A, CHR 0x0B, CHR 0x0C, CHR 0x0D,
                           CHR 0x1C, CHR 0x1D, CHR 0x1E, CHR 0x1F, CHR 0x85, CHR 0xA0])"

definition py_strip :: "string \<Rightarrow> string" where
  "py_strip s = rev (dropWhile is_space (rev (dropWhile is_space s)))"

text \<open>\<^verbatim>\<open>Path(p).stem\<close>: the last component without its last suffix; a leading or a
  trailing dot starts no suffix.\<close>

definition path_stem :: "path \<Rightarrow> string" where
  "path_stem p =
     (if p = [] then []
      else let name = last p;
               after = length (takeWhile (\<lambda>c. c \<noteq> CHR ''.'') (rev name))
           in if CHR ''.'' \<in> set name \<and> 0 < after \<and> after + 1 < length name
              then take (length name - after - 1) name else name)"

text \<open>\<^verbatim>\<open>sub in s\<close> for strings.\<close>

definition contains :: "string \<Rightarrow> string \<Rightarrow> bool" where
  "contains s sub = list_ex (\<lambda>n. take (length sub) (drop n s) = sub) [0..<Suc (length s)]"

text \<open>
  \<^verbatim>\<open>plt.savefig(path)\<close> takes the format from the extension of the file name
  (\<^verbatim>\<open>os.path.splitext\<close>: what follows the last dot, unless only dots stand before it),
  in lower case. A name without extension gets \<^verbatim>\<open>.png\<close> appended after its trailing dots
  are removed; a format the backend does not know makes it raise \<^verbatim>\<open>ValueError\<close>, one
  of the other exceptions, before anything is written.
\<close>

definition file_ext :: "string \<Rightarrow> string" where
  "file_ext name =
     (let after = takeWhile (\<lambda>c. c \<noteq> CHR ''.'') (rev name);
          before = take (length name - length after - 1) name
      in if CHR ''.'' \<in> set name \<and> list_ex (\<lambda>c. c \<noteq> CHR ''.'') before
         then rev after else [])"

definition str_lower :: "string \<Rightarrow> string" where
  "str_lower s =
     map (\<lambda>c. let n = (of_char c :: nat)
              in if (65 \<le> n \<and> n \<le> 90) \<or> (192 \<le> n \<and> n \<le> 222 \<and> n \<noteq> 215)
                 then char_of (n + 32) else c) s"

definition savefig_formats :: "string list" where
  "savefig_formats =
     [''eps'', ''jpeg'', ''jpg'', ''pdf'', ''pgf'', ''png'', ''ps'', ''raw'', ''rgba'',
      ''svg'', ''svgz'', ''tif'', ''tiff'', ''webp'']"

fun join_comma :: "string list \<Rightarrow> string" where
  "join_comma [] = []"
| "join_comma [s] = s"
| "join_comma (s # ss) = s @ '', '' @ join_comma ss"

definition savefig_target :: "path \<Rightarrow> path" where
  "savefig_target p =
     (let name = (if p = [] then [] else last p)
      in if file_ext name = []
         then butlast p @ [rev (dropWhile (\<lambda>c. c = CHR ''.'') (rev name)) @ ''.png'']
         else p)"

definition savefig :: "world \<Rightarrow> path \<Rightarrow> file_data \<Rightarrow> unit io" where
  "savefig w p d =
     (let name = (if p = [] then [] else last p);
          fmt = str_lower (if file_ext name = [] then ''png'' else file_ext name)
      in if fmt \<notin> set savefig_formats
         then (Inl (Exn OtherException
                     (''Format '' @ quoted fmt @ '' is not supported (supported formats: ''
                        @ join_comma savefig_formats @ '')'')), w)
         else write_file w (savefig_target p) d)"

section \<open>Tensors of the language model\<close>

text \<open>
  A tensor is a shape and the value at every index. \<^verbatim>\<open>torch.stack\<close> puts a new leading
  dimension over tensors of one shape, \<^verbatim>\<open>squeeze(d)\<close> drops dimension \<open>d\<close> when its size
  is one (and does nothing otherwise), \<^verbatim>\<open>permute\<close> reorders the dimensions.
\<close>

record tensor =
  tshape :: "nat list"
  telem :: "nat list \<Rightarrow> real"

definition torch_stack :: "tensor list \<Rightarrow> exn + tensor" where
  "torch_stack ts =
     (case ts of
        [] \<Rightarrow> Inl (Exn RuntimeError ''stack expects a non-empty TensorList'')
      | t # rest \<Rightarrow>
          if list_all (\<lambda>u. tshape u = tshape t) rest
          then Inr \<lparr>tshape = length ts # tshape t,
                    telem = (\<lambda>idx. case idx of [] \<Rightarrow> 0 | i # r \<Rightarrow> telem (ts ! i) r)\<rparr>
          else Inl (Exn RuntimeError ''stack expects each tensor to be equal size''))"

definition squeeze :: "tensor \<Rightarrow> nat \<Rightarrow> exn + tensor" where
  "squeeze t d =
     (if length (tshape t) \<le> d then Inl (Exn IndexError ''Dimension out of range'')
      else if tshape t ! d = 1
        then Inr \<lparr>tshape = take d (tshape t) @ drop (Suc d) (tshape t),
                  telem = (\<lambda>idx. telem t (take d idx @ 0 # drop d idx))\<rparr>
      else Inr t)"

definition position_of :: "nat \<Rightarrow> nat list \<Rightarrow> nat" where
  "position_of j ds = length (takeWhile (\<lambda>d. d \<noteq> j) ds)"

definition permute :: "tensor \<Rightarrow> nat list \<Rightarrow> exn + tensor" where
  "permute t ds =
     (if length ds = length (tshape t) \<and> distinct ds \<and> list_all (\<lambda>d. d < length ds) ds
      then Inr \<lparr>tshape = map (\<lambda>d. tshape t ! d) ds,
                telem = (\<lambda>idx. telem t (map (\<lambda>j. idx ! position_of j ds) [0..<length ds]))\<rparr>
      else Inl (Exn RuntimeError
                  ''permute(sparse_coo): number of dimensions in the tensor input does not match the length of the desired ordering of dimensions''))"

text \<open>\<^verbatim>\<open>.cpu().numpy()\<close> of a tensor of three dimensions, which is what
  \<^verbatim>\<open>permute(1, 0, 2)\<close> returns when it returns.\<close>

definition numpy3 :: "tensor \<Rightarrow> ndarray3" where
  "numpy3 t = \<lparr>shape0 = tshape t ! 0, shape1 = tshape t ! 1, shape2 = tshape t ! 2,
               elems = (\<lambda>i j k. telem t [i, j, k])\<rparr>"

section \<open>The pipeline\<close>

text \<open>
  The libraries the script calls are the fields of one record. A call that may raise
  returns the exception as a value; \<^verbatim>\<open>KeyboardInterrupt\<close> can come out of any of them.
  \<open>path_parts\<close> is \<^verbatim>\<open>pathlib\<close>'s reading of a path string, \<open>script_file\<close> the location of
  the script, \<open>format_2f\<close> the format \<^verbatim>\<open>:.2f\<close>, \<open>format_exc\<close> the text of a traceback, and
  \<open>render_figure\<close> everything \<^verbatim>\<open>matplotlib\<close> and \<^verbatim>\<open>seaborn\<close> draw before the figure is saved.
\<close>

record whisper_result =
  full_text :: string
  segments :: "word_info list option list"

record externals =
  cuda_is_available :: bool
  whisper_load_model :: "string \<Rightarrow> string \<Rightarrow> exn option"
  gpt2_from_pretrained :: "string \<Rightarrow> string \<Rightarrow> exn option"
  config_n_layer :: nat
  path_parts :: "string \<Rightarrow> path"
  script_file :: path
  librosa_load :: "world \<Rightarrow> path \<Rightarrow> nat \<Rightarrow> bool \<Rightarrow> exn + real list"
  format_2f :: "real \<Rightarrow> string"
  whisper_transcribe :: "real list \<Rightarrow> bool \<Rightarrow> exn + whisper_result"
  tokenizer_call :: "string \<Rightarrow> nat list"
  tokenizer_encode :: "string \<Rightarrow> nat list"
  tokenizer_decode :: "nat list \<Rightarrow> string"
  np_lib :: numpy_lib
  gpt2_forward :: "nat list \<Rightarrow> exn + tensor list"
  render_figure :: "dataframe \<Rightarrow> string list \<Rightarrow> string \<Rightarrow> exn option"
  format_exc :: "exn \<Rightarrow> string"

record extractor =
  self_device :: string
  self_num_layers :: nat

text \<open>\<^verbatim>\<open>os.path.exists\<close> on a path string: the empty string names nothing.\<close>

definition os_path_exists :: "externals \<Rightarrow> world \<Rightarrow> string \<Rightarrow> bool" where
  "os_path_exists X w s = (s \<noteq> [] \<and> path_exists w (path_parts X s))"

abbreviation newline :: char where
  "newline \<equiv> CHR 0x0A"

definition and_then :: "'a io \<Rightarrow> ('a \<Rightarrow> world \<Rightarrow> 'b io) \<Rightarrow> 'b io" where
  "and_then r f = (case r of (Inl e, w) \<Rightarrow> (Inl e, w) | (Inr x, w) \<Rightarrow> f x w)"

text \<open>\<^verbatim>\<open>except Exception as e: raise RuntimeError(f"{prefix}{e}{suffix}")\<close>: an exception
  that is not an \<^verbatim>\<open>Exception\<close> passes through.\<close>

definition reraise :: "string \<Rightarrow> string \<Rightarrow> exn \<Rightarrow> exn" where
  "reraise prefix suffix e =
     (if is_Exception (cls e) then Exn RuntimeError (prefix @ msg e @ suffix) else e)"

text \<open>The device the constructor settles on.\<close>

definition select_device :: "externals \<Rightarrow> string option \<Rightarrow> string" where
  "select_device X dev =
     (case dev of
        None \<Rightarrow> (if cuda_is_available X then ''cuda'' else ''cpu'')
      | Some given \<Rightarrow> given)"

text \<open>The constructor of \<^verbatim>\<open>AudioEmbeddingExtractor\<close>.\<close>

definition init_extractor :: "externals \<Rightarrow> world \<Rightarrow> string \<Rightarrow> string \<Rightarrow> string option
    \<Rightarrow> extractor io" where
  "init_extractor X w whisper_name gpt2_name dev =
     (let d = select_device X dev;
          w1 = print w (''Using device: '' @ d);
          w2 = print w1 (''Loading Whisper model ('' @ whisper_name @ '')...'')
      in case whisper_load_model X whisper_name d of
           Some e \<Rightarrow> (Inl (reraise ''Failed to load Whisper model: '' [] e), w2)
         | None \<Rightarrow>
             (let w3 = print w2 (''Loading GPT-2 model ('' @ gpt2_name @ '')...'')
              in case gpt2_from_pretrained X gpt2_name d of
                   Some e \<Rightarrow> (Inl (reraise ''Failed to load GPT-2 model: '' [] e), w3)
                 | None \<Rightarrow>
                     (Inr \<lparr>self_device = d, self_num_layers = config_n_layer X\<rparr>,
                      print w3 (''GPT-2 model has '' @ str_nat (config_n_layer X) @ '' layers''))))"

text \<open>
  \<^verbatim>\<open>load_audio\<close>. The existence test comes before the \<^verbatim>\<open>try\<close> block; inside it the
  decoder is asked for a mono signal at rate \<open>sr\<close>, and the duration divides by \<open>sr\<close>.
\<close>

definition load_audio :: "externals \<Rightarrow> world \<Rightarrow> string \<Rightarrow> nat \<Rightarrow> real list io" where
  "load_audio X w audio_path sr =
     (if \<not> os_path_exists X w audio_path
      then (Inl (Exn FileNotFoundError (''Audio file not found: '' @ audio_path)), w)
      else
        (let w1 = print w (newline # ''Loading audio from: '' @ audio_path);
             failed = (\<lambda>e. reraise ''Failed to load audio file: ''
                          (newline # ''Supported formats: WAV, MP3, FLAC, OGG, M4A'') e)
         in case librosa_load X w1 (path_parts X audio_path) sr True of
              Inl e \<Rightarrow> (Inl (failed e), w1)
            | Inr audio \<Rightarrow>
                if sr = 0 then (Inl (failed (Exn OtherException ''division by zero'')), w1)
                else
                  (let duration = real (length audio) / real sr;
                       w2 = print w1 (''Audio duration: '' @ format_2f X duration @ '' seconds'');
                       w3 = print w2 (''Sample rate: '' @ str_nat sr @ '' Hz'')
                   in (Inr audio, w3))))"

text \<open>\<^verbatim>\<open>transcribe_with_timestamps\<close>: a segment without the key \<^verbatim>\<open>"words"\<close> gives no word.\<close>

definition transcribe_with_timestamps :: "externals \<Rightarrow> world \<Rightarrow> real list
    \<Rightarrow> (string \<times> word_info list) io" where
  "transcribe_with_timestamps X w audio =
     (let w1 = print w (newline # ''Transcribing audio with Whisper...'')
      in case whisper_transcribe X audio True of
           Inl e \<Rightarrow> (Inl (reraise ''Transcription failed: '' [] e), w1)
         | Inr result \<Rightarrow>
             (let words_with_timestamps =
                    concat (map (\<lambda>segment. case segment of
                                   None \<Rightarrow> []
                                 | Some ws \<Rightarrow>
                                     map (\<lambda>wi. \<lparr>word = py_strip (word wi), start = start wi,
                                                 end_time = end_time wi\<rparr>) ws)
                             (segments result));
                  w2 = print w1 (''Transcription complete: ''
                         @ str_nat (length words_with_timestamps) @ '' words detected'');
                  w3 = print w2 (''Full text: '' @ full_text result)
              in (Inr (full_text result, words_with_timestamps), w3)))"

text \<open>
  \<^verbatim>\<open>extract_gpt2_embeddings\<close>: the hidden states without the first one are stacked, the
  batch dimension is squeezed away and the token dimension is moved to the front. There
  is no handler here: what the model raises goes up as it is.
\<close>

definition extract_gpt2_embeddings :: "externals \<Rightarrow> world \<Rightarrow> string
    \<Rightarrow> (ndarray3 \<times> string list) io" where
  "extract_gpt2_embeddings X w txt =
     (let w1 = print w (newline # ''Extracting GPT-2 embeddings...'');
          input_ids = tokenizer_call X txt;
          tokens = map (\<lambda>token_id. tokenizer_decode X [token_id]) input_ids;
          w2 = print w1 (''Processing '' @ str_nat (length tokens) @ '' tokens...'')
      in case gpt2_forward X input_ids of
           Inl e \<Rightarrow> (Inl e, w2)
         | Inr hidden_states \<Rightarrow>
             (case torch_stack (drop 1 hidden_states) of
                Inl e \<Rightarrow> (Inl e, w2)
              | Inr stacked \<Rightarrow>
                  (case squeeze stacked 1 of
                     Inl e \<Rightarrow> (Inl e, w2)
                   | Inr squeezed \<Rightarrow>
                       (case permute squeezed [1, 0, 2] of
                          Inl e \<Rightarrow> (Inl e, w2)
                        | Inr layer_embeddings \<Rightarrow>
                            (let embeddings = numpy3 layer_embeddings;
                                 w3 = print w2 (''Extracted embeddings shape: (''
                                        @ str_nat (shape0 embeddings) @ '', ''
                                        @ str_nat (shape1 embeddings) @ '', ''
                                        @ str_nat (shape2 embeddings) @ '')'');
                                 w4 = print w3 (''  - Tokens: '' @ str_nat (shape0 embeddings));
                                 w5 = print w4 (''  - Layers: '' @ str_nat (shape1 embeddings));
                                 w6 = print w5 (''  - Embedding dimension: ''
                                        @ str_nat (shape2 embeddings))
                             in (Inr (embeddings, tokens), w6))))))"

text \<open>\<^verbatim>\<open>align_embeddings_to_words\<close> with its two progress messages.\<close>

definition align_stage :: "externals \<Rightarrow> world \<Rightarrow> word_info list \<Rightarrow> string list \<Rightarrow> ndarray3
    \<Rightarrow> (dataframe \<times> ndarray3 \<times> string list) io" where
  "align_stage X w words_with_timestamps tokens embeddings =
     (let w1 = print w (newline # ''Aligning embeddings to word timestamps...'')
      in case align_embeddings_to_words (np_lib X) (tokenizer_encode X) words_with_timestamps
                tokens embeddings of
           Inl e \<Rightarrow> (Inl e, w1)
         | Inr (df, e, t) \<Rightarrow>
             (Inr (df, e, t),
              print w1 (''Created DataFrame with '' @ str_nat (length (records df))
                @ '' rows and '' @ str_nat (length (columns df)) @ '' columns'')))"

text \<open>
  \<^verbatim>\<open>save_embeddings\<close>. The source replaces \<^verbatim>\<open>.csv\<close> in the whole path string; the
  pattern has no separator in it, so that is the replacement in every component.
\<close>

definition save_embeddings :: "world \<Rightarrow> dataframe \<Rightarrow> path \<Rightarrow> ndarray3 option \<Rightarrow> unit io" where
  "save_embeddings w df output_path embeddings =
     (let w1 = print w (newline # ''Saving embeddings to: '' @ str_path output_path)
      in and_then (to_csv w1 df output_path) (\<lambda>_ w2.
           let w3 = print w2 (''Saved CSV with shape: ('' @ str_nat (length (records df))
                      @ '', '' @ str_nat (length (columns df)) @ '')'')
           in case embeddings of
                None \<Rightarrow> (Inr (), w3)
              | Some arr \<Rightarrow>
                  (let npy_path = map (str_replace ''.csv'' ''_full.npy'') output_path
                   in and_then (np_save w3 npy_path arr) (\<lambda>_ w4.
                        (Inr (), print w4 (''Saved full embeddings to: '' @ str_path npy_path))))))"

text \<open>
  \<^verbatim>\<open>visualize_embeddings\<close>: the guard on the columns, then the drawing, then
  \<^verbatim>\<open>plt.savefig\<close>, which writes the image file.
\<close>

definition visualize_embeddings :: "externals \<Rightarrow> world \<Rightarrow> dataframe \<Rightarrow> ndarray3 \<Rightarrow> path
    \<Rightarrow> string \<Rightarrow> unit io" where
  "visualize_embeddings X w df embeddings output_path metric =
     (let w1 = print w (newline # ''Generating visualization...'');
          n_layers = shape1 embeddings;
          layer_cols = map (\<lambda>i. layer_col i metric) [0..<n_layers]
      in if \<not> list_all (\<lambda>col. col \<in> set (columns df)) layer_cols
         then (Inr (), print w1 (''Warning: Not all layer columns found for metric ''
                  @ [CHR 0x27] @ metric @ [CHR 0x27]))
         else
           (case render_figure X df layer_cols metric of
              Some e \<Rightarrow> (Inl e, w1)
            | None \<Rightarrow>
                and_then (savefig w1 output_path (ImageFile (columns df) (records df) metric))
                  (\<lambda>_ w2. (Inr (), print w2 (''Saved visualization to: '' @ str_path output_path)))))"

text \<open>The output directory: the one given, or \<^verbatim>\<open>data/embeddings\<close> beside the directory
  of the script.\<close>

definition resolve_output_dir :: "externals \<Rightarrow> string option \<Rightarrow> path" where
  "resolve_output_dir X out =
     (case out of
        None \<Rightarrow> butlast (butlast (script_file X)) @ [''data'', ''embeddings'']
      | Some d \<Rightarrow> path_parts X d)"

text \<open>\<^verbatim>\<open>process_audio_file\<close>: the output directory is made first, then the six stages run
  in order; the first exception ends the run with the world as it is by then.\<close>

definition process_audio_file :: "externals \<Rightarrow> world \<Rightarrow> string \<Rightarrow> string option
    \<Rightarrow> (dataframe \<times> path \<times> path) io" where
  "process_audio_file X w audio_path out =
     (let output_dir = resolve_output_dir X out
      in and_then (mkdir_parents w output_dir) (\<lambda>_ w1.
           let audio_name = path_stem (path_parts X audio_path);
               csv_path = output_dir @ [audio_name @ ''_embeddings.csv''];
               plot_path = output_dir @ [audio_name @ ''_visualization.png'']
           in and_then (load_audio X w1 audio_path 16000) (\<lambda>audio w2.
              and_then (transcribe_with_timestamps X w2 audio) (\<lambda>transcription w3.
              and_then (extract_gpt2_embeddings X w3 (fst transcription)) (\<lambda>extracted w4.
              and_then (align_stage X w4 (snd transcription) (snd extracted) (fst extracted))
                (\<lambda>aligned w5.
              and_then (save_embeddings w5 (fst aligned) csv_path (Some (fst (snd aligned))))
                (\<lambda>_ w6.
              and_then (visualize_embeddings X w6 (fst aligned) (fst (snd aligned)) plot_path
                          ''norm'') (\<lambda>_ w7.
                (Inr (fst aligned, csv_path, plot_path),
                 print (print (print (print (print (print w7
                   (newline # replicate 60 CHR ''=''))
                   ''PROCESSING COMPLETE!'')
                   (replicate 60 CHR ''=''))
                   (''CSV output: '' @ str_path csv_path))
                   (''Visualization: '' @ str_path plot_path))
                   (replicate 60 CHR ''=''))))))))))"

text \<open>The parsed command line. \<^verbatim>\<open>parse_args\<close> runs before the \<^verbatim>\<open>try\<close> block of \<^verbatim>\<open>main\<close>
  and its own exits are not part of the model.\<close>

record args =
  arg_audio_file :: string
  arg_output_dir :: "string option"
  arg_whisper_model :: string
  arg_gpt2_model :: string
  arg_device :: "string option"

text \<open>The body of the \<^verbatim>\<open>try\<close> block of \<^verbatim>\<open>main\<close>.\<close>

definition main_body :: "externals \<Rightarrow> world \<Rightarrow> args \<Rightarrow> (dataframe \<times> path \<times> path) io" where
  "main_body X w a =
     and_then (init_extractor X w (arg_whisper_model a) (arg_gpt2_model a) (arg_device a))
       (\<lambda>extractor w1. process_audio_file X w1 (arg_audio_file a) (arg_output_dir a))"

text \<open>\<^verbatim>\<open>main\<close>: the value it returns is the exit code; an exception none of the handlers
  catches leaves it.\<close>

definition main :: "externals \<Rightarrow> world \<Rightarrow> args \<Rightarrow> int io" where
  "main X w a =
     (case main_body X w a of
        (Inr _, w1) \<Rightarrow> (Inr 0, w1)
      | (Inl e, w1) \<Rightarrow>
          if cls e = FileNotFoundError then (Inr 1, eprint w1 (newline # ''Error: '' @ msg e))
          else if cls e = RuntimeError then (Inr 1, eprint w1 (newline # ''Error: '' @ msg e))
          else if cls e = KeyboardInterrupt
            then (Inr 130, print w1 (newline # newline # ''Interrupted by user''))
          else if is_Exception (cls e)
            then (Inr 1, eprint (eprint w1 (newline # ''Unexpected error: '' @ msg e))
                           (format_exc X e))
          else (Inl e, w1))"

section \<open>Concrete inputs\<close>

text \<open>
  Small inputs on which the functions above are evaluated. The toy tokenizer yields one
  token per character; the two words claim four tokens where the token list has three.
\<close>

definition ex_encode :: "string \<Rightarrow> nat list" where
  "ex_encode s = map of_char s"

definition ex_words :: "word_info list" where
  "ex_words = [\<lparr>word = ''hi'', start = 0, end_time = 2 / 5\<rparr>,
               \<lparr>word = ''yo'', start = 1 / 2, end_time = 9 / 10\<rparr>]"

definition ex_tokens :: "string list" where
  "ex_tokens = [''h'', ''i'', '' y'']"

text \<open>A stand-in for the three NumPy reductions on the small vectors used here.\<close>

definition ex_numpy :: numpy_lib where
  "ex_numpy =
     \<lparr>np_mean = (\<lambda>v. if v = [] then NaN else Num (sum_list v / real (length v))),
      np_std = (\<lambda>v. if v = [] then NaN
                   else Num (sqrt (sum_list (map (\<lambda>x. (x - sum_list v / real (length v))\<^sup>2) v)
                                   / real (length v)))),
      np_linalg_norm = (\<lambda>v. Num (sqrt (sum_list (map (\<lambda>x. x\<^sup>2) v))))\<rparr>"

definition ex_embeddings :: ndarray3 where
  "ex_embeddings = \<lparr>shape0 = 3, shape1 = 2, shape2 = 2, elems = (\<lambda>t l k. real (t + 2 * l + 3 * k))\<rparr>"

text \<open>A token list whose only token is a line feed.\<close>

definition nl_words :: "word_info list" where
  "nl_words = [\<lparr>word = ''a'', start = 0, end_time = 1\<rparr>]"

definition nl_tokens :: "string list" where
  "nl_tokens = [[CHR 0x0A]]"

definition nl_embeddings :: ndarray3 where
  "nl_embeddings = \<lparr>shape0 = 1, shape1 = 0, shape2 = 0, elems = (\<lambda>t l k. 0)\<rparr>"

definition nl_table :: dataframe where
  "nl_table = \<lparr>columns = [''timestamp'', ''word'', ''token''],
               records = [[Some (Num 0), Some (Str ''a''), Some (Str [CHR 0x5C, CHR ''n''])]]\<rparr>"

text \<open>An environment in which every library call succeeds, and a world that holds one
  audio file. The language model has one block and hidden size one.\<close>

definition ex_externals :: externals where
  "ex_externals =
     \<lparr>cuda_is_available = False,
      whisper_load_model = (\<lambda>name dev. None),
      gpt2_from_pretrained = (\<lambda>name dev. None),
      config_n_layer = 1,
      path_parts = (\<lambda>s. [s]),
      script_file = [''repo'', ''scripts'', ''extract_embeddings.py''],
      librosa_load = (\<lambda>w p sr mono. Inr [0, 0]),
      format_2f = (\<lambda>x. ''0.00''),
      whisper_transcribe = (\<lambda>audio word_timestamps.
         Inr \<lparr>full_text = '' hi'',
              segments = [Some [\<lparr>word = '' hi'', start = 0, end_time = 2 / 5\<rparr>]]\<rparr>),
      tokenizer_call = map of_char,
      tokenizer_encode = map of_char,
      tokenizer_decode = map char_of,
      np_lib = ex_numpy,
      gpt2_forward = (\<lambda>ids. Inr (replicate 2 \<lparr>tshape = [1, length ids, 1], telem = (\<lambda>idx. 1)\<rparr>)),
      render_figure = (\<lambda>df cols metric. None),
      format_exc = (\<lambda>e. ''Traceback (most recent call last):'')\<rparr>"

definition ex_world :: world where
  "ex_world = \<lparr>dirs = {}, files = [[''hello.wav''] \<mapsto> OtherFile], stdout = [], stderr = []\<rparr>"

definition ex_args :: args where
  "ex_args = \<lparr>arg_audio_file = ''does_not_exist.wav'', arg_output_dir = Some ''out'',
              arg_whisper_model = ''base'', arg_gpt2_model = ''gpt2'', arg_device = None\<rparr>"

text \<open>The same environment with a speech model that cannot be loaded.\<close>

definition offline_externals :: externals where
  "offline_externals =
     ex_externals\<lparr>whisper_load_model := (\<lambda>name dev. Some (Exn OtherException ''download failed''))\<rparr>"

section \<open>Column names\<close>

text \<open>The decimal rendering of a layer index is injective and has no underscore, so
  the per-layer column names are pairwise different and differ from the three leading keys.\<close>

lemma digit_char_inj: "a < 10 \<Longrightarrow> b < 10 \<Longrightarrow> digit_char a = digit_char b \<Longrightarrow> a = b"
proof -
  assume "a < 10" "b < 10" "digit_char a = digit_char b"
  moreover have "a \<in> {0,1,2,3,4,5,6,7,8,9}" using \<open>a < 10\<close> by auto
  moreover have "b \<in> {0,1,2,3,4,5,6,7,8,9}" using \<open>b < 10\<close> by auto
  ultimately show ?thesis unfolding digit_char_def by auto
qed

lemma digit_char_not_underscore: "d < 10 \<Longrightarrow> digit_char d \<noteq> CHR ''_''"
proof -
  assume "d < 10"
  then have "d \<in> {0,1,2,3,4,5,6,7,8,9}" by auto
  then show ?thesis unfolding digit_char_def by auto
qed

lemma str_nat_nonempty: "str_nat n \<noteq> []"
  by (subst str_nat.simps) simp

lemma str_nat_no_underscore: "CHR ''_'' \<notin> set (str_nat n)"
proof (induction n rule: str_nat.induct)
  case (1 n)
  show ?case
  proof (cases "n < 10")
    case True
    then show ?thesis using digit_char_not_underscore[of n] by (subst str_nat.simps) auto
  next
    case False
    then have "CHR ''_'' \<notin> set (str_nat (n div 10))" using 1 by simp
    moreover have "digit_char (n mod 10) \<noteq> CHR ''_''" by (simp add: digit_char_not_underscore)
    ultimately show ?thesis using False by (subst str_nat.simps) auto
  qed
qed

lemma str_nat_inj: "str_nat n = str_nat m \<Longrightarrow> n = m"
proof (induction n arbitrary: m rule: str_nat.induct)
  case (1 n)
  show ?case
  proof (cases "n < 10")
    case n: True
    show ?thesis
    proof (cases "m < 10")
      case True
      with n 1(2) show ?thesis
        by (simp add: str_nat.simps[of n] str_nat.simps[of m] digit_char_inj)
    next
      case False
      with n 1(2) show ?thesis
        using str_nat_nonempty[of "m div 10"]
        by (simp add: str_nat.simps[of n] str_nat.simps[of m])
    qed
  next
    case n: False
    show ?thesis
    proof (cases "m < 10")
      case True
      with n 1(2) show ?thesis
        using str_nat_nonempty[of "n div 10"]
        by (simp add: str_nat.simps[of n] str_nat.simps[of m])
    next
      case False
      with n 1(2) have a: "str_nat (n div 10) = str_nat (m div 10)"
        and b: "digit_char (n mod 10) = digit_char (m mod 10)"
        by (simp_all add: str_nat.simps[of n] str_nat.simps[of m])
      from 1(1)[OF n a] have "n div 10 = m div 10" .
      moreover from b have "n mod 10 = m mod 10" by (simp add: digit_char_inj)
      ultimately show ?thesis by (metis div_mult_mod_eq)
    qed
  qed
qed

lemma split_at_sep:
  "x \<notin> set a \<Longrightarrow> x \<notin> set b \<Longrightarrow> a @ x # s = b @ x # t \<Longrightarrow> a = b \<and> s = t"
proof (induction a arbitrary: b)
  case Nil
  then show ?case by (cases b) auto
next
  case (Cons y a)
  then show ?case by (cases b) auto
qed

lemma layer_col_inj: "layer_col i s = layer_col j t \<Longrightarrow> i = j \<and> s = t"
proof -
  assume "layer_col i s = layer_col j t"
  then have "str_nat i @ CHR ''_'' # s = str_nat j @ CHR ''_'' # t"
    by (simp add: layer_col_def)
  then have "str_nat i = str_nat j \<and> s = t"
    using split_at_sep[OF str_nat_no_underscore str_nat_no_underscore] by blast
  then show ?thesis using str_nat_inj by blast
qed

lemma layer_col_not_base:
  "layer_col i s \<noteq> ''timestamp''" "layer_col i s \<noteq> ''word''" "layer_col i s \<noteq> ''token''"
  by (simp_all add: layer_col_def)

section \<open>The cursor of the aligner\<close>

lemma word_loop_eq:
  "word_loop w n ts (tps, cur) =
     (tps @ map (mk_pos w) [cur..<cur + min (length ts) (n - cur)],
      cur + min (length ts) (n - cur))"
proof (induction ts arbitrary: tps cur)
  case Nil
  then show ?case by simp
next
  case (Cons t ts)
  show ?case
  proof (cases "cur < n")
    case True
    then have "min (Suc (length ts)) (n - cur) = Suc (min (length ts) (n - (cur + 1)))"
      by arith
    then have m: "min (length (t # ts)) (n - cur) = Suc (min (length ts) (n - (cur + 1)))"
      by simp
    have "word_loop w n (t # ts) (tps, cur) = word_loop w n ts (tps @ [mk_pos w cur], cur + 1)"
      using True by (simp add: mk_pos_def)
    also have "\<dots> = ((tps @ [mk_pos w cur]) @
        map (mk_pos w) [cur + 1..<cur + 1 + min (length ts) (n - (cur + 1))],
        cur + 1 + min (length ts) (n - (cur + 1)))"
      by (rule Cons.IH)
    also have "\<dots> = (tps @ map (mk_pos w) [cur..<cur + min (length (t # ts)) (n - cur)],
        cur + min (length (t # ts)) (n - cur))"
    proof -
      define k where "k = min (length ts) (n - (cur + 1))"
      have "[cur..<cur + Suc k] = cur # [cur + 1..<cur + 1 + k]"
        by (simp add: upt_conv_Cons)
      then show ?thesis unfolding m k_def[symmetric] by simp
    qed
    finally show ?thesis .
  next
    case False
    then have "word_loop w n (t # ts) (tps, cur) = word_loop w n ts (tps, cur)" by simp
    also have "\<dots> = (tps @ map (mk_pos w) [cur..<cur + min (length ts) (n - cur)],
        cur + min (length ts) (n - cur))" by (rule Cons.IH)
    finally show ?thesis using False by simp
  qed
qed

lemma word_loop_idx:
  assumes "word_loop w n ts (tps, cur) = (tps', cur')"
  shows "map token_idx tps' = map token_idx tps @ [cur..<cur']"
    and "cur' = cur + min (length ts) (n - cur)"
  using assms by (auto simp: word_loop_eq mk_pos_def comp_def map_idI)

lemma foldl_align_idx:
  assumes "foldl (\<lambda>st w. word_loop w n (encode (word w)) st) (tps, cur) ws = (tps', cur')"
  shows "map token_idx tps' = map token_idx tps @ [cur..<cur']
       \<and> cur' = cur + min (total_count encode ws) (n - cur)"
  using assms
proof (induction ws arbitrary: tps cur)
  case Nil
  then show ?case by (simp add: total_count_def)
next
  case (Cons w ws)
  obtain t1 c1 where s1: "word_loop w n (encode (word w)) (tps, cur) = (t1, c1)"
    by (cases "word_loop w n (encode (word w)) (tps, cur)")
  from word_loop_idx[OF s1] have a: "map token_idx t1 = map token_idx tps @ [cur..<c1]"
    and b: "c1 = cur + min (length (encode (word w))) (n - cur)" by simp_all
  from Cons.prems s1 have "foldl (\<lambda>st w. word_loop w n (encode (word w)) st) (t1, c1) ws = (tps', cur')"
    by simp
  from Cons.IH[OF this] have c: "map token_idx tps' = map token_idx t1 @ [c1..<cur']"
    and d: "cur' = c1 + min (total_count encode ws) (n - c1)" by simp_all
  have le: "cur \<le> c1" "c1 \<le> cur'" using b d by simp_all
  have "[cur..<c1] @ [c1..<cur'] = [cur..<cur']"
    using le by (metis le_Suc_ex upt_add_eq_append)
  with a c have "map token_idx tps' = map token_idx tps @ [cur..<cur']" by simp
  moreover have "cur + min a (n - cur) + min b (n - (cur + min a (n - cur))) = cur + min (a + b) (n - cur)"
    for a b :: nat by arith
  then have "cur' = cur + min (total_count encode (w # ws)) (n - cur)"
    using b d by (simp add: total_count_def)
  ultimately show ?case by simp
qed

lemma token_positions_idx:
  "map token_idx (token_positions encode ws tokens) =
     [0..<min (total_count encode ws) (length tokens)]"
proof -
  obtain tps cur where s: "align_loop encode ws (length tokens) = (tps, cur)"
    by (cases "align_loop encode ws (length tokens)")
  then have "foldl (\<lambda>st w. word_loop w (length tokens) (encode (word w)) st) ([], 0) ws = (tps, cur)"
    by (simp add: align_loop_def)
  from foldl_align_idx[OF this] show ?thesis
    by (simp add: token_positions_def s)
qed

section \<open>Building the rows\<close>

lemma dict_set_append: "k \<notin> fst ` set d \<Longrightarrow> dict_set d k v = d @ [(k, v)]"
  by (induction d) auto

lemma layer_cells_keys:
  "map fst (layer_cells np a t l) = [layer_col l ''mean'', layer_col l ''std'', layer_col l ''norm'']"
  by (simp add: layer_cells_def Let_def)

lemma layer_step_ok:
  assumes t: "t < shape0 a" and l: "l < shape1 a"
    and fresh: "\<forall>m. layer_col l m \<notin> fst ` set r"
  shows "layer_step np a t r l = Inr (r @ layer_cells np a t l)"
proof -
  let ?v = "map (elems a t l) [0..<shape2 a]"
  have v: "nd_vector a t l = Inr ?v" using t l by (simp add: nd_vector_def)
  have 1: "dict_set r (layer_col l ''mean'') (np_mean np ?v) = r @ [(layer_col l ''mean'', np_mean np ?v)]"
    using fresh by (simp add: dict_set_append)
  have ne: "layer_col l ''std'' \<noteq> layer_col l ''mean''" "layer_col l ''norm'' \<noteq> layer_col l ''mean''"
    "layer_col l ''norm'' \<noteq> layer_col l ''std''"
    using layer_col_inj by fastforce+
  have 2: "dict_set (r @ [(layer_col l ''mean'', np_mean np ?v)]) (layer_col l ''std'') (np_std np ?v)
      = r @ [(layer_col l ''mean'', np_mean np ?v), (layer_col l ''std'', np_std np ?v)]"
    using fresh ne by (simp add: dict_set_append)
  have 3: "dict_set (r @ [(layer_col l ''mean'', np_mean np ?v), (layer_col l ''std'', np_std np ?v)])
       (layer_col l ''norm'') (np_linalg_norm np ?v)
      = r @ layer_cells np a t l"
    using fresh ne by (simp add: dict_set_append layer_cells_def Let_def)
  show ?thesis by (simp add: layer_step_def v 1 2 3)
qed

lemma fold_layers_ok:
  assumes t: "t < shape0 a"
  shows "\<forall>l\<in>set ls. l < shape1 a \<Longrightarrow> distinct ls
    \<Longrightarrow> \<forall>l\<in>set ls. \<forall>m. layer_col l m \<notin> fst ` set r
    \<Longrightarrow> fold_exn (layer_step np a t) r ls = Inr (r @ concat (map (layer_cells np a t) ls))"
proof (induction ls arbitrary: r)
  case Nil
  then show ?case by simp
next
  case (Cons l ls)
  have s: "layer_step np a t r l = Inr (r @ layer_cells np a t l)"
    using Cons.prems t by (intro layer_step_ok) auto
  have fresh: "\<forall>l'\<in>set ls. \<forall>m. layer_col l' m \<notin> fst ` set (r @ layer_cells np a t l)"
  proof (intro ballI allI)
    fix l' m assume l': "l' \<in> set ls"
    then have "l' \<noteq> l" using Cons.prems(2) by auto
    then have "layer_col l' m \<notin> set (map fst (layer_cells np a t l))"
      unfolding layer_cells_keys using layer_col_inj by fastforce
    moreover have "layer_col l' m \<notin> fst ` set r" using Cons.prems(3) l' by simp
    ultimately show "layer_col l' m \<notin> fst ` set (r @ layer_cells np a t l)" by auto
  qed
  have "fold_exn (layer_step np a t) (r @ layer_cells np a t l) ls
      = Inr ((r @ layer_cells np a t l) @ concat (map (layer_cells np a t) ls))"
    using Cons.prems fresh by (intro Cons.IH) auto
  then show ?case by (simp add: s)
qed

lemma fold_layers_fail:
  assumes "shape0 a \<le> t" "ls \<noteq> []"
  shows "fold_exn (layer_step np a t) r ls = Inl (axis_error t 0 (shape0 a))"
  using assms by (cases ls) (simp_all add: layer_step_def nd_vector_def)

lemma build_row_ok:
  assumes "token_idx pos < length tokens" "token_idx pos < shape0 a \<or> shape1 a = 0"
  shows "build_row np tokens a pos = Inr (row_of np tokens a pos)"
proof (cases "shape1 a = 0")
  case True
  then show ?thesis using assms(1) by (simp add: build_row_def list_get_def row_of_def)
next
  case False
  then have t: "token_idx pos < shape0 a" using assms(2) by simp
  have "fold_exn (layer_step np a (token_idx pos))
          [(''timestamp'', Num (pos_start pos)), (''word'', Str (pos_word pos)),
           (''token'', Str (escape_newlines (tokens ! token_idx pos)))] [0..<shape1 a]
      = Inr (row_of np tokens a pos)"
    unfolding row_of_def
    by (rule fold_layers_ok[OF t]) (auto simp: layer_col_not_base)
  then show ?thesis using assms(1) by (simp add: build_row_def list_get_def)
qed

lemma build_row_fail:
  assumes "token_idx pos < length tokens" "shape0 a \<le> token_idx pos" "0 < shape1 a"
  shows "build_row np tokens a pos = Inl (axis_error (token_idx pos) 0 (shape0 a))"
  using assms by (simp add: build_row_def list_get_def fold_layers_fail)

lemma fold_rows_ok:
  "\<forall>p\<in>set tps. build_row np tokens a p = Inr (row_of np tokens a p) \<Longrightarrow>
   fold_exn (\<lambda>rows pos. case build_row np tokens a pos of Inl e \<Rightarrow> Inl e | Inr r \<Rightarrow> Inr (rows @ [r]))
     acc tps = Inr (acc @ map (row_of np tokens a) tps)"
  by (induction tps arbitrary: acc) auto

lemma fold_rows_Inr:
  "fold_exn (\<lambda>rows pos. case build_row np tokens a pos of Inl e \<Rightarrow> Inl e | Inr r \<Rightarrow> Inr (rows @ [r]))
     acc tps = Inr rows \<Longrightarrow> \<forall>p\<in>set tps. \<exists>r. build_row np tokens a p = Inr r"
  by (induction tps arbitrary: acc) (auto split: sum.splits)

lemma token_positions_length:
  "length (token_positions encode ws tokens) = min (total_count encode ws) (length tokens)"
  using arg_cong[OF token_positions_idx[of encode ws tokens], of length] by simp

lemma token_positions_bound:
  assumes "p \<in> set (token_positions encode ws tokens)"
  shows "token_idx p < length tokens"
proof -
  from assms have "token_idx p \<in> set (map token_idx (token_positions encode ws tokens))" by simp
  then show ?thesis unfolding token_positions_idx by simp
qed

lemma token_positions_nth:
  assumes "r < length (token_positions encode ws tokens)"
  shows "token_idx (token_positions encode ws tokens ! r) = r"
proof -
  have "map token_idx (token_positions encode ws tokens) ! r = r"
    unfolding token_positions_idx using assms by (simp add: token_positions_length)
  then show ?thesis using assms by simp
qed

lemma build_rows_ok:
  assumes "\<forall>p\<in>set tps. token_idx p < length tokens \<and> (token_idx p < shape0 a \<or> shape1 a = 0)"
  shows "build_rows np tokens a tps = Inr (map (row_of np tokens a) tps)"
  unfolding build_rows_def using fold_rows_ok[where tps = tps and np = np and tokens = tokens and a = a and acc = "[]"] assms build_row_ok by simp

lemma fold_rows_Inl:
  "fold_exn (\<lambda>rows pos. case build_row np tokens a pos of Inl e \<Rightarrow> Inl e | Inr r \<Rightarrow> Inr (rows @ [r]))
     acc tps = Inl e \<Longrightarrow> \<exists>p\<in>set tps. build_row np tokens a p = Inl e"
  by (induction tps arbitrary: acc) (auto split: sum.splits)

lemma build_row_cases:
  assumes "token_idx p < length tokens"
  shows "build_row np tokens a p = Inr (row_of np tokens a p)
       \<or> (shape0 a \<le> token_idx p \<and> 0 < shape1 a
           \<and> build_row np tokens a p = Inl (axis_error (token_idx p) 0 (shape0 a)))"
proof (cases "token_idx p < shape0 a \<or> shape1 a = 0")
  case True
  then show ?thesis using build_row_ok[OF assms] by simp
next
  case False
  then show ?thesis using build_row_fail[OF assms] by simp
qed

lemma build_rows_Inr:
  assumes "\<forall>p\<in>set tps. token_idx p < length tokens" "build_rows np tokens a tps = Inr rows"
  shows "rows = map (row_of np tokens a) tps"
proof -
  have "\<forall>p\<in>set tps. build_row np tokens a p = Inr (row_of np tokens a p)"
  proof
    fix p assume p: "p \<in> set tps"
    with fold_rows_Inr[OF assms(2)[unfolded build_rows_def]] obtain r where "build_row np tokens a p = Inr r"
      by blast
    then show "build_row np tokens a p = Inr (row_of np tokens a p)"
      using build_row_cases[where p = p and np = np and tokens = tokens and a = a] assms(1) p by auto
  qed
  from fold_rows_ok[OF this, of "[]"] assms(2) show ?thesis by (simp add: build_rows_def)
qed

lemma build_rows_Inl:
  assumes "\<forall>p\<in>set tps. token_idx p < length tokens" "build_rows np tokens a tps = Inl e"
  shows "\<exists>p\<in>set tps. shape0 a \<le> token_idx p \<and> 0 < shape1 a \<and> e = axis_error (token_idx p) 0 (shape0 a)"
proof -
  from fold_rows_Inl[OF assms(2)[unfolded build_rows_def]] obtain p
    where p: "p \<in> set tps" "build_row np tokens a p = Inl e" by blast
  then show ?thesis using build_row_cases[where p = p and np = np and tokens = tokens and a = a] assms(1) by auto
qed

subsection \<open>The table\<close>

lemma first_seen_fold_in:
  "set xs \<subseteq> set acc \<Longrightarrow> foldl (\<lambda>acc x. if x \<in> set acc then acc else acc @ [x]) acc xs = acc"
  by (induction xs) auto

lemma first_seen_fold_distinct:
  "distinct (acc @ xs) \<Longrightarrow> foldl (\<lambda>acc x. if x \<in> set acc then acc else acc @ [x]) acc xs = acc @ xs"
  by (induction xs arbitrary: acc) auto

lemma first_seen_same:
  assumes "distinct ks" "set rest \<subseteq> set ks"
  shows "first_seen (ks @ rest) = ks"
  using assms by (simp add: first_seen_def first_seen_fold_distinct first_seen_fold_in)

lemma row_of_keys: "dict_keys (row_of np tokens a p) = aligned_columns (shape1 a)"
  by (simp add: dict_keys_def row_of_def aligned_columns_def map_concat comp_def layer_cells_keys)

lemma aligned_columns_distinct: "distinct (aligned_columns n)"
proof -
  have "distinct (concat (map (\<lambda>l. [layer_col l ''mean'', layer_col l ''std'', layer_col l ''norm'']) ls))"
    if "distinct ls" for ls
    using that
  proof (induction ls)
    case Nil
    then show ?case by simp
  next
    case (Cons l ls)
    have "layer_col l ''mean'' \<noteq> layer_col l ''std''" "layer_col l ''mean'' \<noteq> layer_col l ''norm''"
      "layer_col l ''std'' \<noteq> layer_col l ''norm''"
      using layer_col_inj by fastforce+
    moreover have "layer_col l m \<noteq> layer_col l' m'" if "l' \<in> set ls" for l' m m'
      using that Cons.prems layer_col_inj by fastforce
    ultimately show ?case using Cons by auto
  qed
  then show ?thesis
    by (auto simp: aligned_columns_def layer_col_not_base[symmetric] layer_col_not_base)
qed

lemma DataFrame_columns:
  assumes "tps \<noteq> []"
  shows "columns (DataFrame (map (row_of np tokens a) tps)) = aligned_columns (shape1 a)"
proof -
  obtain p ps where tps: "tps = p # ps" using assms by (cases tps) auto
  have "concat (map dict_keys (map (row_of np tokens a) tps))
      = aligned_columns (shape1 a) @ concat (map (\<lambda>_. aligned_columns (shape1 a)) ps)"
    by (simp add: tps row_of_keys comp_def)
  moreover have "set (concat (map (\<lambda>_. aligned_columns (shape1 a)) ps)) \<subseteq> set (aligned_columns (shape1 a))"
    by auto
  ultimately show ?thesis
    by (simp add: DataFrame_def Let_def first_seen_same aligned_columns_distinct)
qed

lemma DataFrame_records_length: "length (records (DataFrame rows)) = length rows"
  by (simp add: DataFrame_def Let_def)

lemma map_of_own_keys: "distinct (map fst r) \<Longrightarrow> map (map_of r) (map fst r) = map (Some \<circ> snd) r"
  by (induction r) (auto simp: rev_image_eqI)

lemma DataFrame_records_cols:
  "records (DataFrame rows) = map (\<lambda>r. map (map_of r) (columns (DataFrame rows))) rows"
  by (simp add: DataFrame_def Let_def)

lemma DataFrame_records:
  assumes "tps \<noteq> []"
  shows "records (DataFrame (map (row_of np tokens a) tps))
       = map (\<lambda>p. map (Some \<circ> snd) (row_of np tokens a p)) tps"
proof -
  have "map (map_of (row_of np tokens a p)) (aligned_columns (shape1 a)) = map (Some \<circ> snd) (row_of np tokens a p)" for p
  proof -
    have k: "map fst (row_of np tokens a p) = aligned_columns (shape1 a)"
      using row_of_keys[where np = np and tokens = tokens and a = a and p = p] by (simp only: dict_keys_def)
    have "distinct (map fst (row_of np tokens a p))"
      unfolding k by (rule aligned_columns_distinct)
    from map_of_own_keys[OF this] show ?thesis unfolding k .
  qed
  then show ?thesis
    unfolding DataFrame_records_cols DataFrame_columns[OF assms] by (simp add: comp_def)
qed

lemma map_of_zip_own:
  "map_of (zip (map fst r) (map (Some \<circ> snd) r)) c = map_option Some (map_of r c)"
  by (induction r) auto

lemma df_at_row_of:
  assumes "r < length tps"
  shows "df_at (DataFrame (map (row_of np tokens a) tps)) r c = map_of (row_of np tokens a (tps ! r)) c"
proof -
  from assms have ne: "tps \<noteq> []" by auto
  let ?row = "row_of np tokens a (tps ! r)"
  have cols: "columns (DataFrame (map (row_of np tokens a) tps)) = map fst ?row"
    using DataFrame_columns[OF ne] row_of_keys[where np = np and tokens = tokens and a = a and p = "tps ! r"] by (simp add: dict_keys_def)
  have recs: "records (DataFrame (map (row_of np tokens a) tps)) ! r = map (Some \<circ> snd) ?row"
    using DataFrame_records[OF ne] assms by simp
  have d: "distinct (map fst ?row)"
    using aligned_columns_distinct[of "shape1 a"] row_of_keys[where np = np and tokens = tokens and a = a and p = "tps ! r"] by (simp add: dict_keys_def)
  have "map_of (zip (map fst ?row) (map (Some \<circ> snd) ?row)) c = map_option Some (map_of ?row c)"
    by (rule map_of_zip_own)
  then show ?thesis
    using assms by (simp add: df_at_def cols recs DataFrame_records_length split: option.splits)
qed

subsection \<open>The aligner as a whole\<close>

lemma align_Inr:
  assumes "align_embeddings_to_words np encode ws tokens a = Inr (df, e, t)"
  shows "df = DataFrame (map (row_of np tokens a) (token_positions encode ws tokens))"
    and "e = a" and "t = tokens"
proof -
  from assms obtain rows where r: "build_rows np tokens a (token_positions encode ws tokens) = Inr rows"
    and d: "df = DataFrame rows" "e = a" "t = tokens"
    by (auto simp: align_embeddings_to_words_def split: sum.splits)
  have "\<forall>p\<in>set (token_positions encode ws tokens). token_idx p < length tokens"
    using token_positions_bound by blast
  from build_rows_Inr[OF this r] d show "df = DataFrame (map (row_of np tokens a) (token_positions encode ws tokens))"
    and "e = a" and "t = tokens" by simp_all
qed

lemma align_Inl:
  assumes "align_embeddings_to_words np encode ws tokens a = Inl ex"
  shows "\<exists>i<min (total_count encode ws) (length tokens).
           shape0 a \<le> i \<and> 0 < shape1 a \<and> ex = axis_error i 0 (shape0 a)"
proof -
  from assms have r: "build_rows np tokens a (token_positions encode ws tokens) = Inl ex"
    by (auto simp: align_embeddings_to_words_def split: sum.splits)
  have b: "\<forall>p\<in>set (token_positions encode ws tokens). token_idx p < length tokens"
    using token_positions_bound by blast
  from build_rows_Inl[OF b r] obtain p where p: "p \<in> set (token_positions encode ws tokens)"
    "shape0 a \<le> token_idx p" "0 < shape1 a" "ex = axis_error (token_idx p) 0 (shape0 a)" by blast
  from p(1) have "token_idx p \<in> set (map token_idx (token_positions encode ws tokens))" by simp
  then have "token_idx p < min (total_count encode ws) (length tokens)"
    unfolding token_positions_idx by simp
  with p show ?thesis by blast
qed

lemma align_ok:
  assumes "min (total_count encode ws) (length tokens) \<le> shape0 a \<or> shape1 a = 0"
  shows "align_embeddings_to_words np encode ws tokens a
       = Inr (DataFrame (map (row_of np tokens a) (token_positions encode ws tokens)), a, tokens)"
proof (cases "align_embeddings_to_words np encode ws tokens a")
  case (Inl ex)
  from align_Inl[OF this] assms show ?thesis by auto
next
  case (Inr x)
  obtain df e t where "x = (df, e, t)" by (cases x)
  with Inr align_Inr[where np = np and encode = encode and ws = ws and tokens = tokens and a = a and df = df and e = e and t = t] show ?thesis by simp
qed

subsection \<open>The code's loop and the specification's algorithm\<close>

lemma greedy_emit_eq:
  "greedy_emit tokens w k cur =
     (map (\<lambda>i. (start w, word w, tokens ! i)) [cur..<cur + min k (length tokens - cur)],
      cur + min k (length tokens - cur))"
proof (induction k arbitrary: cur)
  case 0
  then show ?case by simp
next
  case (Suc k)
  show ?case
  proof (cases "cur < length tokens")
    case True
    define m where "m = min k (length tokens - (cur + 1))"
    define f where "f = (\<lambda>i. (start w, word w, tokens ! i))"
    have m: "min (Suc k) (length tokens - cur) = Suc m"
      unfolding m_def using True by arith
    have u: "[cur..<cur + Suc m] = cur # [cur + 1..<cur + 1 + m]"
      by (simp add: upt_conv_Cons)
    have "greedy_emit tokens w (Suc k) cur
        = (case greedy_emit tokens w k (cur + 1) of (rs, c) \<Rightarrow> (f cur # rs, c))"
      using True by (simp add: f_def)
    also have "greedy_emit tokens w k (cur + 1) = (map f [cur + 1..<cur + 1 + m], cur + 1 + m)"
      unfolding m_def f_def by (rule Suc.IH)
    finally have "greedy_emit tokens w (Suc k) cur = (map f [cur..<cur + Suc m], cur + Suc m)"
      unfolding u by simp
    then show ?thesis unfolding m f_def .
  next
    case False
    then show ?thesis by (simp add: Suc.IH)
  qed
qed

lemma foldl_greedy:
  assumes "foldl (\<lambda>st w. word_loop w (length tokens) (encode (word w)) st) (tps, cur) ws = (tps', cur')"
  shows "map (pos_triple tokens) tps' = map (pos_triple tokens) tps @ greedy_align encode tokens ws cur"
  using assms
proof (induction ws arbitrary: tps cur)
  case Nil
  then show ?case by simp
next
  case (Cons w ws)
  define m where "m = min (length (encode (word w))) (length tokens - cur)"
  have s1: "word_loop w (length tokens) (encode (word w)) (tps, cur)
      = (tps @ map (mk_pos w) [cur..<cur + m], cur + m)"
    unfolding m_def by (rule word_loop_eq)
  have g: "greedy_emit tokens w (length (encode (word w))) cur
      = (map (\<lambda>i. (start w, word w, tokens ! i)) [cur..<cur + m], cur + m)"
    unfolding m_def by (rule greedy_emit_eq)
  from Cons.prems s1 have "foldl (\<lambda>st w. word_loop w (length tokens) (encode (word w)) st)
      (tps @ map (mk_pos w) [cur..<cur + m], cur + m) ws = (tps', cur')" by simp
  from Cons.IH[OF this] have "map (pos_triple tokens) tps'
      = map (pos_triple tokens) (tps @ map (mk_pos w) [cur..<cur + m])
        @ greedy_align encode tokens ws (cur + m)" .
  moreover have "map (pos_triple tokens) (map (mk_pos w) [cur..<cur + m])
      = map (\<lambda>i. (start w, word w, tokens ! i)) [cur..<cur + m]"
    by (simp add: pos_triple_def mk_pos_def)
  ultimately show ?case by (simp add: g)
qed

lemma token_positions_greedy:
  "map (pos_triple tokens) (token_positions encode ws tokens) = greedy_align encode tokens ws 0"
proof -
  obtain tps cur where s: "align_loop encode ws (length tokens) = (tps, cur)"
    by (cases "align_loop encode ws (length tokens)")
  then have "foldl (\<lambda>st w. word_loop w (length tokens) (encode (word w)) st) ([], 0) ws = (tps, cur)"
    by (simp add: align_loop_def)
  from foldl_greedy[OF this] show ?thesis by (simp add: token_positions_def s)
qed

lemma row_of_take3:
  "take 3 (map (Some \<circ> snd) (row_of np tokens a p)) = escaped_cells (pos_triple tokens p)"
  by (simp add: row_of_def escaped_cells_def pos_triple_def)

lemma aligned_records_take3:
  "map (take 3) (records (DataFrame (map (row_of np tokens a) (token_positions encode ws tokens))))
     = map escaped_cells (greedy_align encode tokens ws 0)"
proof (cases "token_positions encode ws tokens = []")
  case True
  then show ?thesis
    using token_positions_greedy[of tokens encode ws] by (simp add: DataFrame_def Let_def)
next
  case False
  show ?thesis
    unfolding DataFrame_records[OF False] token_positions_greedy[symmetric]
    by (simp add: comp_def row_of_take3[unfolded comp_def])
qed

subsection \<open>The cells of a row\<close>

lemma map_of_layers:
  "map_of (concat (map (layer_cells np a t) ls)) (layer_col i m)
     = (if i \<in> set ls then map_of (layer_cells np a t i) (layer_col i m) else None)"
proof (induction ls)
  case Nil
  then show ?case by simp
next
  case (Cons l ls)
  have "map_of (layer_cells np a t l) (layer_col i m) = None" if "l \<noteq> i"
  proof -
    have "layer_col i m \<notin> set (map fst (layer_cells np a t l))"
      unfolding layer_cells_keys using that layer_col_inj by fastforce
    then show ?thesis by (simp add: map_of_eq_None_iff)
  qed
  note other = this
  show ?case
  proof (cases "l = i")
    case True
    show ?thesis
    proof (cases "map_of (layer_cells np a t i) (layer_col i m)")
      case None
      then show ?thesis using True Cons by (simp add: map_add_def)
    next
      case (Some v)
      then show ?thesis using True by (simp add: map_add_def)
    qed
  next
    case False
    then show ?thesis using other Cons by (simp add: map_add_def)
  qed
qed

lemma map_of_row_of:
  assumes "i < shape1 a"
  shows "map_of (row_of np tokens a p) (layer_col i m) = map_of (layer_cells np a (token_idx p) i) (layer_col i m)"
  using assms by (simp add: row_of_def layer_col_not_base map_of_layers)

lemma layer_cells_lookup:
  "map_of (layer_cells np a t i) (layer_col i ''mean'') = Some (np_mean np (map (elems a t i) [0..<shape2 a]))"
  "map_of (layer_cells np a t i) (layer_col i ''std'') = Some (np_std np (map (elems a t i) [0..<shape2 a]))"
  "map_of (layer_cells np a t i) (layer_col i ''norm'') = Some (np_linalg_norm np (map (elems a t i) [0..<shape2 a]))"
proof -
  have ne: "layer_col i ''std'' \<noteq> layer_col i ''mean''" "layer_col i ''norm'' \<noteq> layer_col i ''mean''"
    "layer_col i ''norm'' \<noteq> layer_col i ''std''"
    using layer_col_inj by fastforce+
  show "map_of (layer_cells np a t i) (layer_col i ''mean'') = Some (np_mean np (map (elems a t i) [0..<shape2 a]))"
    "map_of (layer_cells np a t i) (layer_col i ''std'') = Some (np_std np (map (elems a t i) [0..<shape2 a]))"
    "map_of (layer_cells np a t i) (layer_col i ''norm'') = Some (np_linalg_norm np (map (elems a t i) [0..<shape2 a]))"
    using ne by (simp_all add: layer_cells_def Let_def)
qed

lemma foldl_saturated:
  "foldl (\<lambda>st w. word_loop w n (encode (word w)) st) (tps, n) ws = (tps, n)"
  by (induction ws) (simp_all add: word_loop_eq)

lemma token_positions_saturated:
  assumes "length tokens \<le> total_count encode ws"
  shows "token_positions encode (ws @ ws') tokens = token_positions encode ws tokens"
proof -
  obtain tps cur where s: "foldl (\<lambda>st w. word_loop w (length tokens) (encode (word w)) st) ([], 0) ws = (tps, cur)"
    by (cases "foldl (\<lambda>st w. word_loop w (length tokens) (encode (word w)) st) ([], 0) ws")
  from foldl_align_idx[OF s] assms have "cur = length tokens" by simp
  with s show ?thesis
    by (simp add: token_positions_def align_loop_def foldl_saturated)
qed

lemma axis_error_not_list_error: "axis_error i ax n \<noteq> Exn IndexError ''list index out of range''"
  by (simp add: axis_error_def)

lemma ex_total: "total_count ex_encode ex_words = 4"
  by (simp add: total_count_def ex_encode_def ex_words_def)

lemma ex_align:
  "align_embeddings_to_words ex_numpy ex_encode ex_words ex_tokens ex_embeddings
     = Inr (DataFrame (map (row_of ex_numpy ex_tokens ex_embeddings) (token_positions ex_encode ex_words ex_tokens)),
            ex_embeddings, ex_tokens)"
  by (rule align_ok) (simp add: ex_total ex_tokens_def ex_embeddings_def)

lemma align_Inr_reads:
  assumes "align_embeddings_to_words np encode ws tokens a = Inr (df, e, t)"
    and "p \<in> set (token_positions encode ws tokens)" and "0 < shape1 a"
  shows "token_idx p < shape0 a"
proof -
  from assms(1) obtain rows where r: "build_rows np tokens a (token_positions encode ws tokens) = Inr rows"
    by (auto simp: align_embeddings_to_words_def split: sum.splits)
  from fold_rows_Inr[OF r[unfolded build_rows_def]] assms(2)
  obtain x where "build_row np tokens a p = Inr x" by blast
  then show ?thesis
    using build_row_fail[OF token_positions_bound[OF assms(2)], where a = a and np = np] assms(3)
    by (cases "token_idx p < shape0 a") auto
qed

lemma aligned_rows_length:
  assumes "align_embeddings_to_words np encode ws tokens a = Inr (df, e, t)"
  shows "length (records df) = length (token_positions encode ws tokens)"
  unfolding align_Inr(1)[OF assms] by (simp add: DataFrame_records_length)

lemma aligned_token_cell:
  assumes al: "align_embeddings_to_words np encode ws tokens a = Inr (df, e, t)"
    and r: "r < length (token_positions encode ws tokens)"
  shows "df_at df r ''token'' = Some (Str (escape_newlines (tokens ! r)))"
  unfolding align_Inr(1)[OF al] df_at_row_of[OF r]
  by (simp add: row_of_def token_positions_nth[OF r])

lemma aligned_layer_cells:
  assumes al: "align_embeddings_to_words np encode ws tokens a = Inr (df, e, t)"
    and r: "r < length (token_positions encode ws tokens)"
  shows "\<forall>i<shape1 a. \<exists>v. nd_vector a r i = Inr v
           \<and> df_at df r (layer_col i ''mean'') = Some (np_mean np v)
           \<and> df_at df r (layer_col i ''std'') = Some (np_std np v)
           \<and> df_at df r (layer_col i ''norm'') = Some (np_linalg_norm np v)"
proof (intro allI impI)
  fix i assume i: "i < shape1 a"
  let ?tps = "token_positions encode ws tokens"
  let ?v = "map (elems a r i) [0..<shape2 a]"
  have t: "token_idx (?tps ! r) = r" by (rule token_positions_nth[OF r])
  from r have "?tps ! r \<in> set ?tps" by simp
  from align_Inr_reads[OF al this] i t have "r < shape0 a" by simp
  then have v: "nd_vector a r i = Inr ?v" using i by (simp add: nd_vector_def)
  have at: "df_at df r (layer_col i m) = map_of (layer_cells np a r i) (layer_col i m)" for m
    unfolding align_Inr(1)[OF al] df_at_row_of[OF r] using map_of_row_of[OF i, where p = "?tps ! r"]
    by (simp add: t)
  show "\<exists>v. nd_vector a r i = Inr v
           \<and> df_at df r (layer_col i ''mean'') = Some (np_mean np v)
           \<and> df_at df r (layer_col i ''std'') = Some (np_std np v)
           \<and> df_at df r (layer_col i ''norm'') = Some (np_linalg_norm np v)"
    using v by (simp add: at layer_cells_lookup)
qed

section \<open>Claims about the aligner\<close>

text \<open>
  C1. Whatever the isolated re-tokenization counts are, the aligner records at most
  \<^verbatim>\<open>len(tokens)\<close> positions, every recorded index is inside the token list, and the
  table has at most that many rows. The read \<^verbatim>\<open>tokens[idx]\<close> never raises; the only
  exception the function can raise is NumPy's, for an embedding array with fewer rows than
  a recorded index, and that index is still inside the token list.
\<close>
theorem aligner_within_bounds:
  "length (token_positions encode ws tokens) \<le> length tokens
   \<and> list_all (\<lambda>p. token_idx p < length tokens) (token_positions encode ws tokens)
   \<and> (case align_embeddings_to_words np encode ws tokens embeddings of
         Inr (df, e, t) \<Rightarrow> length (records df) \<le> length tokens
       | Inl ex \<Rightarrow> ex \<noteq> Exn IndexError ''list index out of range''
                 \<and> (\<exists>i<length tokens. shape0 embeddings \<le> i \<and> ex = axis_error i 0 (shape0 embeddings)))"
proof (intro conjI)
  show "length (token_positions encode ws tokens) \<le> length tokens"
    by (simp add: token_positions_length)
  show "list_all (\<lambda>p. token_idx p < length tokens) (token_positions encode ws tokens)"
    unfolding list_all_iff using token_positions_bound by blast
  show "case align_embeddings_to_words np encode ws tokens embeddings of
         Inr (df, e, t) \<Rightarrow> length (records df) \<le> length tokens
       | Inl ex \<Rightarrow> ex \<noteq> Exn IndexError ''list index out of range''
                 \<and> (\<exists>i<length tokens. shape0 embeddings \<le> i \<and> ex = axis_error i 0 (shape0 embeddings))"
  proof (cases "align_embeddings_to_words np encode ws tokens embeddings")
    case (Inl ex)
    from align_Inl[OF this] obtain i where "i < length tokens" "shape0 embeddings \<le> i"
      "ex = axis_error i 0 (shape0 embeddings)" by auto
    then show ?thesis using Inl axis_error_not_list_error by auto
  next
    case (Inr x)
    obtain df e t where x: "x = (df, e, t)" by (cases x)
    from align_Inr(1)[OF Inr[unfolded x]] show ?thesis
      using Inr x by (simp add: DataFrame_records_length token_positions_length)
  qed
qed

theorem aligner_within_bounds_witness:
  "length (token_positions ex_encode ex_words ex_tokens) \<le> 3
   \<and> list_all (\<lambda>p. token_idx p < 3) (token_positions ex_encode ex_words ex_tokens)
   \<and> length (records (DataFrame (map (row_of ex_numpy ex_tokens ex_embeddings)
        (token_positions ex_encode ex_words ex_tokens)))) \<le> 3"
proof -
  have len: "length ex_tokens = 3" by (simp add: ex_tokens_def)
  show ?thesis
    using aligner_within_bounds[where encode = ex_encode and ws = ex_words and tokens = ex_tokens
        and np = ex_numpy and embeddings = ex_embeddings]
    unfolding ex_align len by simp
qed

text \<open>
  C9. When the aligner returns, the second and third components of its result are the
  embedding array and the token list it was given. It returns unless the array has
  fewer rows than the positions recorded and has at least one layer.
\<close>
theorem aligner_passes_through:
  "case align_embeddings_to_words np encode ws tokens embeddings of
     Inr (df, e, t) \<Rightarrow> e = embeddings \<and> t = tokens
   | Inl ex \<Rightarrow> shape0 embeddings < length tokens \<and> shape0 embeddings < total_count encode ws
               \<and> 0 < shape1 embeddings"
proof (cases "align_embeddings_to_words np encode ws tokens embeddings")
  case (Inl ex)
  from align_Inl[OF this] show ?thesis using Inl by auto
next
  case (Inr x)
  obtain df e t where x: "x = (df, e, t)" by (cases x)
  from align_Inr(2,3)[OF Inr[unfolded x]] show ?thesis using Inr x by simp
qed

text \<open>
  C10. Row \<open>r\<close> of the table is the row of token \<open>r\<close>. The table has \<open>k\<close> rows, where \<open>k\<close>
  is the smaller of the total re-tokenization count and the token count, and the token
  indices recorded for them are \<open>0, 1, ..., k - 1\<close> in order. The \<^verbatim>\<open>token\<close> cell of row \<open>r\<close>
  holds \<^verbatim>\<open>tokens[r]\<close> (line feeds escaped) and its three cells of layer \<open>i\<close> hold what
  NumPy's reductions return on \<^verbatim>\<open>embeddings[r, i, :]\<close>. Once the words seen so far claim
  the whole token list, further words change neither the positions nor the result.
\<close>
theorem token_indices_consecutive:
  "(case align_embeddings_to_words np encode ws tokens embeddings of
      Inr (df, e, t) \<Rightarrow>
        length (records df) = min (total_count encode ws) (length tokens)
        \<and> map token_idx (token_positions encode ws tokens) = [0..<length (records df)]
        \<and> (\<forall>r<length (records df).
              df_at df r ''token'' = Some (Str (escape_newlines (tokens ! r)))
              \<and> (\<forall>i<shape1 embeddings.
                    \<exists>v. nd_vector embeddings r i = Inr v
                      \<and> df_at df r (layer_col i ''mean'') = Some (np_mean np v)
                      \<and> df_at df r (layer_col i ''std'') = Some (np_std np v)
                      \<and> df_at df r (layer_col i ''norm'') = Some (np_linalg_norm np v)))
    | Inl ex \<Rightarrow> shape0 embeddings < min (total_count encode ws) (length tokens))
   \<and> (length tokens \<le> total_count encode ws \<longrightarrow>
        token_positions encode (ws @ ws') tokens = token_positions encode ws tokens
        \<and> align_embeddings_to_words np encode (ws @ ws') tokens embeddings
            = align_embeddings_to_words np encode ws tokens embeddings)"
proof (intro conjI)
  show "length tokens \<le> total_count encode ws \<longrightarrow>
        token_positions encode (ws @ ws') tokens = token_positions encode ws tokens
        \<and> align_embeddings_to_words np encode (ws @ ws') tokens embeddings
            = align_embeddings_to_words np encode ws tokens embeddings"
    by (simp add: token_positions_saturated align_embeddings_to_words_def)
  show "case align_embeddings_to_words np encode ws tokens embeddings of
      Inr (df, e, t) \<Rightarrow>
        length (records df) = min (total_count encode ws) (length tokens)
        \<and> map token_idx (token_positions encode ws tokens) = [0..<length (records df)]
        \<and> (\<forall>r<length (records df).
              df_at df r ''token'' = Some (Str (escape_newlines (tokens ! r)))
              \<and> (\<forall>i<shape1 embeddings.
                    \<exists>v. nd_vector embeddings r i = Inr v
                      \<and> df_at df r (layer_col i ''mean'') = Some (np_mean np v)
                      \<and> df_at df r (layer_col i ''std'') = Some (np_std np v)
                      \<and> df_at df r (layer_col i ''norm'') = Some (np_linalg_norm np v)))
    | Inl ex \<Rightarrow> shape0 embeddings < min (total_count encode ws) (length tokens)"
  proof (cases "align_embeddings_to_words np encode ws tokens embeddings")
    case (Inl ex)
    from align_Inl[OF this] show ?thesis using Inl by auto
  next
    case (Inr x)
    obtain df e t where x: "x = (df, e, t)" by (cases x)
    note al = Inr[unfolded x]
    have len: "length (records df) = min (total_count encode ws) (length tokens)"
      using aligned_rows_length[OF al] by (simp add: token_positions_length)
    have idx: "map token_idx (token_positions encode ws tokens) = [0..<length (records df)]"
      unfolding len by (rule token_positions_idx)
    have cells: "df_at df r ''token'' = Some (Str (escape_newlines (tokens ! r)))
              \<and> (\<forall>i<shape1 embeddings.
                    \<exists>v. nd_vector embeddings r i = Inr v
                      \<and> df_at df r (layer_col i ''mean'') = Some (np_mean np v)
                      \<and> df_at df r (layer_col i ''std'') = Some (np_std np v)
                      \<and> df_at df r (layer_col i ''norm'') = Some (np_linalg_norm np v))"
      if "r < length (records df)" for r
    proof -
      from that have r: "r < length (token_positions encode ws tokens)"
        using aligned_rows_length[OF al] by simp
      show ?thesis
        using aligned_token_cell[OF al r] aligned_layer_cells[OF al r] by blast
    qed
    show ?thesis using Inr x len idx cells by simp
  qed
qed

theorem token_indices_consecutive_witness:
  "\<exists>df. align_embeddings_to_words ex_numpy ex_encode ex_words ex_tokens ex_embeddings
           = Inr (df, ex_embeddings, ex_tokens)
      \<and> length (records df) = 3
      \<and> map token_idx (token_positions ex_encode ex_words ex_tokens) = [0, 1, 2]
      \<and> df_at df 2 ''token'' = Some (Str (ex_tokens ! 2))
      \<and> df_at df 2 (layer_col 1 ''mean'') = Some (Num (11 / 2))
      \<and> df_at df 2 (layer_col 1 ''std'') = Some (Num (3 / 2))
      \<and> df_at df 2 (layer_col 1 ''norm'') = Some (Num (sqrt 65))
      \<and> length ex_tokens \<le> total_count ex_encode ex_words
      \<and> token_positions ex_encode (ex_words @ nl_words) ex_tokens
          = token_positions ex_encode ex_words ex_tokens
      \<and> align_embeddings_to_words ex_numpy ex_encode (ex_words @ nl_words) ex_tokens ex_embeddings
          = Inr (df, ex_embeddings, ex_tokens)"
proof -
  let ?df = "DataFrame (map (row_of ex_numpy ex_tokens ex_embeddings)
               (token_positions ex_encode ex_words ex_tokens))"
  have h: "length ex_tokens \<le> total_count ex_encode ex_words"
    by (simp add: ex_total ex_tokens_def)
  have k: "min (total_count ex_encode ex_words) (length ex_tokens) = 3"
    by (simp add: ex_total ex_tokens_def)
  have u: "[0..<3] = [0, 1, 2::nat]" by (simp add: upt_rec)
  have vec: "nd_vector ex_embeddings 2 1 = Inr [4, 7]"
    by (simp add: nd_vector_def ex_embeddings_def upt_rec)
  have esc: "escape_newlines (ex_tokens ! 2) = ex_tokens ! 2"
    by (simp add: ex_tokens_def escape_newlines_def str_replace.simps)
  have "sqrt (9 / 4) = 3 / 2"
    by (rule real_sqrt_unique) (simp_all add: power2_eq_square)
  then have np: "np_mean ex_numpy [4, 7] = Num (11 / 2)" "np_std ex_numpy [4, 7] = Num (3 / 2)"
    "np_linalg_norm ex_numpy [4, 7] = Num (sqrt 65)"
    by (simp_all add: ex_numpy_def power2_eq_square)
  from token_indices_consecutive[where encode = ex_encode and ws = ex_words
      and tokens = ex_tokens and np = ex_numpy and embeddings = ex_embeddings
      and ws' = nl_words] h
  have all: "length (records ?df) = 3
      \<and> map token_idx (token_positions ex_encode ex_words ex_tokens) = [0..<3]
      \<and> (\<forall>r<3.
              df_at ?df r ''token'' = Some (Str (escape_newlines (ex_tokens ! r)))
              \<and> (\<forall>i<shape1 ex_embeddings.
                    \<exists>v. nd_vector ex_embeddings r i = Inr v
                      \<and> df_at ?df r (layer_col i ''mean'') = Some (np_mean ex_numpy v)
                      \<and> df_at ?df r (layer_col i ''std'') = Some (np_std ex_numpy v)
                      \<and> df_at ?df r (layer_col i ''norm'') = Some (np_linalg_norm ex_numpy v)))"
    and sat: "token_positions ex_encode (ex_words @ nl_words) ex_tokens
          = token_positions ex_encode ex_words ex_tokens"
      "align_embeddings_to_words ex_numpy ex_encode (ex_words @ nl_words) ex_tokens ex_embeddings
          = Inr (?df, ex_embeddings, ex_tokens)"
    unfolding ex_align k by simp_all
  from all have l3: "length (records ?df) = 3"
    and ix: "map token_idx (token_positions ex_encode ex_words ex_tokens) = [0, 1, 2]"
    and tok: "df_at ?df 2 ''token'' = Some (Str (ex_tokens ! 2))"
    and "\<exists>v. nd_vector ex_embeddings 2 1 = Inr v
                      \<and> df_at ?df 2 (layer_col 1 ''mean'') = Some (np_mean ex_numpy v)
                      \<and> df_at ?df 2 (layer_col 1 ''std'') = Some (np_std ex_numpy v)
                      \<and> df_at ?df 2 (layer_col 1 ''norm'') = Some (np_linalg_norm ex_numpy v)"
    by (simp_all add: u esc ex_embeddings_def)
  then have st: "df_at ?df 2 (layer_col 1 ''mean'') = Some (Num (11 / 2))"
    "df_at ?df 2 (layer_col 1 ''std'') = Some (Num (3 / 2))"
    "df_at ?df 2 (layer_col 1 ''norm'') = Some (Num (sqrt 65))"
    unfolding vec using np by auto
  show ?thesis
    using ex_align l3 ix tok st h sat by (intro exI[of _ ?df] conjI)
qed

text \<open>
  C2 (amended). The first three cells of the rows are those of the specification's greedy
  algorithm, with one difference: the token cell holds the token string with every line
  feed replaced by a backslash and the letter n. Under them stand the column names
  \<^verbatim>\<open>timestamp\<close>, \<^verbatim>\<open>word\<close>, \<^verbatim>\<open>token\<close>.
\<close>
theorem aligner_greedy_escaped:
  "case align_embeddings_to_words np encode ws tokens embeddings of
     Inr (df, e, t) \<Rightarrow>
       map (take 3) (records df) = map escaped_cells (greedy_align encode tokens ws 0)
       \<and> (records df = [] \<or> take 3 (columns df) = [''timestamp'', ''word'', ''token''])
   | Inl ex \<Rightarrow> shape0 embeddings < length tokens"
proof (cases "align_embeddings_to_words np encode ws tokens embeddings")
  case (Inl ex)
  from align_Inl[OF this] show ?thesis using Inl by auto
next
  case (Inr x)
  obtain df e t where x: "x = (df, e, t)" by (cases x)
  note df = align_Inr(1)[OF Inr[unfolded x]]
  have 1: "map (take 3) (records df) = map escaped_cells (greedy_align encode tokens ws 0)"
    unfolding df by (rule aligned_records_take3)
  have 2: "records df = [] \<or> take 3 (columns df) = [''timestamp'', ''word'', ''token'']"
  proof (cases "token_positions encode ws tokens = []")
    case True
    then show ?thesis unfolding df by (simp add: DataFrame_def Let_def)
  next
    case False
    then show ?thesis unfolding df DataFrame_columns[OF False] by (simp add: aligned_columns_def)
  qed
  show ?thesis using Inr x 1 2 by simp
qed

text \<open>C2 as stated fails for a token that is a line feed: the row holds the two
  characters of the escape, not the token string.\<close>

theorem aligner_stated_token_counterexample:
  "align_embeddings_to_words ex_numpy ex_encode nl_words nl_tokens nl_embeddings
     = Inr (nl_table, nl_embeddings, nl_tokens)
   \<and> map (take 3) (records nl_table) \<noteq> map stated_cells (greedy_align ex_encode nl_tokens nl_words 0)"
  by (simp add: align_embeddings_to_words_def build_rows_def build_row_def list_get_def
      token_positions_def align_loop_def ex_encode_def nl_words_def nl_tokens_def
      nl_embeddings_def nl_table_def DataFrame_def first_seen_def dict_keys_def
      escape_newlines_def stated_cells_def Let_def)

section \<open>Claims about the visualizer, the loader and the entry point\<close>

text \<open>
  C4. When some per-layer column of the requested statistic is missing from the table,
  the visualizer prints the warning and returns normally: no exception, no file written,
  no directory created, nothing on the error stream.
\<close>

theorem visualizer_skips_missing_columns:
  assumes "\<not> (\<forall>i<shape1 embeddings. layer_col i metric \<in> set (columns df))"
  shows "visualize_embeddings X w df embeddings output_path metric
       = (Inr (),
          print (print w (newline # ''Generating visualization...''))
            (''Warning: Not all layer columns found for metric '' @ [CHR 0x27] @ metric @ [CHR 0x27]))
     \<and> files (snd (visualize_embeddings X w df embeddings output_path metric)) = files w
     \<and> dirs (snd (visualize_embeddings X w df embeddings output_path metric)) = dirs w
     \<and> stderr (snd (visualize_embeddings X w df embeddings output_path metric)) = stderr w"
proof -
  from assms have "\<not> list_all (\<lambda>col. col \<in> set (columns df))
      (map (\<lambda>i. layer_col i metric) [0..<shape1 embeddings])"
    by (auto simp: list_all_iff)
  then have "visualize_embeddings X w df embeddings output_path metric
       = (Inr (),
          print (print w (newline # ''Generating visualization...''))
            (''Warning: Not all layer columns found for metric '' @ [CHR 0x27] @ metric @ [CHR 0x27]))"
    by (simp add: visualize_embeddings_def Let_def)
  then show ?thesis by (simp add: print_def)
qed

theorem visualizer_skips_missing_columns_witness:
  "\<not> (\<forall>i<shape1 ex_embeddings. layer_col i ''norm'' \<in> set (columns nl_table))
   \<and> fst (visualize_embeddings ex_externals ex_world nl_table ex_embeddings [''out'', ''a.png''] ''norm'') = Inr ()
   \<and> files (snd (visualize_embeddings ex_externals ex_world nl_table ex_embeddings [''out'', ''a.png''] ''norm''))
       = files ex_world"
proof -
  have h: "\<not> (\<forall>i<shape1 ex_embeddings. layer_col i ''norm'' \<in> set (columns nl_table))"
  proof
    assume "\<forall>i<shape1 ex_embeddings. layer_col i ''norm'' \<in> set (columns nl_table)"
    then have "layer_col 0 ''norm'' \<in> set (columns nl_table)" by (simp add: ex_embeddings_def)
    then show False by (simp add: nl_table_def layer_col_def)
  qed
  from visualizer_skips_missing_columns[OF h, of ex_externals ex_world "[''out'', ''a.png'']"] h
  show ?thesis by (simp add: print_def)
qed

lemma reraise_not_FileNotFound: "cls (reraise p s e) \<noteq> FileNotFoundError"
  by (cases e; cases "cls e") (auto simp: reraise_def)

lemma reraise_Exception: "is_Exception (cls e) \<Longrightarrow> reraise p s e = Exn RuntimeError (p @ msg e @ s)"
  by (simp add: reraise_def)

lemma load_audio_present:
  assumes "os_path_exists X w p"
  shows "case fst (load_audio X w p sr) of Inl e \<Rightarrow> cls e \<noteq> FileNotFoundError | Inr a \<Rightarrow> True"
  using assms
  by (auto simp: load_audio_def Let_def reraise_not_FileNotFound split: sum.splits)

text \<open>
  C5. The loader raises \<^verbatim>\<open>FileNotFoundError\<close> exactly when the path does not exist, and
  then neither the decoder nor anything else has been called: the result and the world
  are the same whatever the decoder would do. For an existing path, a failure of the
  decoder that is an \<^verbatim>\<open>Exception\<close> comes out as a \<^verbatim>\<open>RuntimeError\<close> whose message
  holds the decoder's message; a successful decode, requested as mono at the target
  sample rate, is returned as it is.
\<close>

theorem load_audio_errors:
  "((\<exists>m. fst (load_audio X w p sr) = Inl (Exn FileNotFoundError m))
      \<longleftrightarrow> \<not> os_path_exists X w p)
   \<and> (\<not> os_path_exists X w p \<longrightarrow>
        (\<forall>decoder. load_audio (X\<lparr>librosa_load := decoder\<rparr>) w p sr
           = (Inl (Exn FileNotFoundError (''Audio file not found: '' @ p)), w)))
   \<and> (\<forall>e. os_path_exists X w p
          \<and> librosa_load X (print w (newline # ''Loading audio from: '' @ p)) (path_parts X p) sr True = Inl e
          \<and> is_Exception (cls e) \<longrightarrow>
        fst (load_audio X w p sr)
          = Inl (Exn RuntimeError (''Failed to load audio file: '' @ msg e
                  @ newline # ''Supported formats: WAV, MP3, FLAC, OGG, M4A'')))
   \<and> (\<forall>audio. os_path_exists X w p
          \<and> librosa_load X (print w (newline # ''Loading audio from: '' @ p)) (path_parts X p) sr True = Inr audio
          \<and> sr \<noteq> 0 \<longrightarrow>
        fst (load_audio X w p sr) = Inr audio)"
proof (intro conjI allI impI)
  show "(\<exists>m. fst (load_audio X w p sr) = Inl (Exn FileNotFoundError m))
      \<longleftrightarrow> \<not> os_path_exists X w p"
  proof
    assume "\<exists>m. fst (load_audio X w p sr) = Inl (Exn FileNotFoundError m)"
    then obtain m where m: "fst (load_audio X w p sr) = Inl (Exn FileNotFoundError m)" ..
    show "\<not> os_path_exists X w p"
    proof
      assume ex: "os_path_exists X w p"
      from load_audio_present[OF this, of sr] m show False by simp
    qed
  next
    assume "\<not> os_path_exists X w p"
    then show "\<exists>m. fst (load_audio X w p sr) = Inl (Exn FileNotFoundError m)"
      by (simp add: load_audio_def)
  qed
next
  fix decoder
  assume "\<not> os_path_exists X w p"
  then have "\<not> os_path_exists (X\<lparr>librosa_load := decoder\<rparr>) w p"
    by (simp add: os_path_exists_def)
  then show "load_audio (X\<lparr>librosa_load := decoder\<rparr>) w p sr
           = (Inl (Exn FileNotFoundError (''Audio file not found: '' @ p)), w)"
    by (simp add: load_audio_def)
next
  fix e
  assume "os_path_exists X w p
          \<and> librosa_load X (print w (newline # ''Loading audio from: '' @ p)) (path_parts X p) sr True = Inl e
          \<and> is_Exception (cls e)"
  then show "fst (load_audio X w p sr)
          = Inl (Exn RuntimeError (''Failed to load audio file: '' @ msg e
                  @ newline # ''Supported formats: WAV, MP3, FLAC, OGG, M4A''))"
    by (simp add: load_audio_def Let_def reraise_Exception)
next
  fix audio
  assume "os_path_exists X w p
          \<and> librosa_load X (print w (newline # ''Loading audio from: '' @ p)) (path_parts X p) sr True = Inr audio
          \<and> sr \<noteq> 0"
  then show "fst (load_audio X w p sr) = Inr audio"
    by (simp add: load_audio_def Let_def)
qed

lemma ex_paths:
  "\<not> os_path_exists ex_externals ex_world ''does_not_exist.wav''"
  "os_path_exists ex_externals ex_world ''hello.wav''"
  by (simp_all add: os_path_exists_def path_exists_def is_dir_def ex_world_def ex_externals_def)

theorem load_audio_errors_witness:
  "\<not> os_path_exists ex_externals ex_world ''does_not_exist.wav''
   \<and> (\<exists>m. fst (load_audio ex_externals ex_world ''does_not_exist.wav'' 16000)
            = Inl (Exn FileNotFoundError m))
   \<and> load_audio (ex_externals\<lparr>librosa_load := (\<lambda>w p sr mono. Inl (Exn KeyboardInterrupt []))\<rparr>)
        ex_world ''does_not_exist.wav'' 16000
       = (Inl (Exn FileNotFoundError ''Audio file not found: does_not_exist.wav''), ex_world)
   \<and> os_path_exists ex_externals ex_world ''hello.wav''
   \<and> fst (load_audio ex_externals ex_world ''hello.wav'' 16000) = Inr [0, 0]"
proof -
  note missing = load_audio_errors[of ex_externals ex_world "''does_not_exist.wav''" 16000]
  note present = load_audio_errors[of ex_externals ex_world "''hello.wav''" 16000]
  have dec: "librosa_load ex_externals (print ex_world (newline # ''Loading audio from: '' @ ''hello.wav''))
      (path_parts ex_externals ''hello.wav'') 16000 True = Inr [0, 0]"
    by (simp add: ex_externals_def)
  from missing ex_paths(1) have 1: "\<exists>m. fst (load_audio ex_externals ex_world ''does_not_exist.wav'' 16000)
            = Inl (Exn FileNotFoundError m)" by blast
  from missing ex_paths(1) have 2: "load_audio (ex_externals\<lparr>librosa_load := (\<lambda>w p sr mono. Inl (Exn KeyboardInterrupt []))\<rparr>)
        ex_world ''does_not_exist.wav'' 16000
       = (Inl (Exn FileNotFoundError (''Audio file not found: '' @ ''does_not_exist.wav'')), ex_world)" by blast
  from present ex_paths(2) dec have 3: "fst (load_audio ex_externals ex_world ''hello.wav'' 16000) = Inr [0, 0]"
    by (metis zero_neq_numeral)
  from 1 2 3 ex_paths show ?thesis by simp
qed

lemma contains_suffix: "contains (pre @ s) s"
proof -
  have "length pre \<in> set [0..<Suc (length (pre @ s))]" by simp
  moreover have "take (length s) (drop (length pre) (pre @ s)) = s" by simp
  ultimately show ?thesis unfolding contains_def list_ex_iff by blast
qed

lemma main_code:
  "fst (main X w a) =
     (case fst (main_body X w a) of
        Inr r \<Rightarrow> Inr 0
      | Inl e \<Rightarrow> if cls e = KeyboardInterrupt then Inr 130
                 else if is_Exception (cls e) then Inr 1 else Inl e)"
proof (cases "main_body X w a")
  case (Pair r w1)
  show ?thesis
  proof (cases r)
    case (Inl e)
    then show ?thesis using Pair by (cases "cls e") (simp_all add: main_def)
  next
    case (Inr x)
    then show ?thesis using Pair by (simp add: main_def)
  qed
qed

lemma main_body_missing:
  assumes "whisper_load_model X (arg_whisper_model a) (select_device X (arg_device a)) = None"
    and "gpt2_from_pretrained X (arg_gpt2_model a) (select_device X (arg_device a)) = None"
    and "\<not> list_ex (\<lambda>q. files w q \<noteq> None) (ancestors (resolve_output_dir X (arg_output_dir a)))"
    and "\<not> os_path_exists X w (arg_audio_file a)"
    and "path_parts X (arg_audio_file a) \<notin> set (ancestors (resolve_output_dir X (arg_output_dir a)))"
  shows "\<exists>w1. main_body X w a
           = (Inl (Exn FileNotFoundError (''Audio file not found: '' @ arg_audio_file a)), w1)
         \<and> files w1 = files w \<and> stderr w1 = stderr w
         \<and> dirs w1 = dirs w \<union> set (ancestors (resolve_output_dir X (arg_output_dir a)))"
  using assms
  by (simp add: main_body_def init_extractor_def process_audio_file_def and_then_def
      mkdir_parents_def load_audio_def Let_def print_def os_path_exists_def path_exists_def is_dir_def)


text \<open>
  C6 (amended). The exit code is 0 when the body of \<^verbatim>\<open>main\<close> returns, 130 when it raises
  \<^verbatim>\<open>KeyboardInterrupt\<close> and 1 when it raises any \<^verbatim>\<open>Exception\<close>, \<^verbatim>\<open>FileNotFoundError\<close> and
  \<^verbatim>\<open>RuntimeError\<close> among them. For an input path that does not exist and is not a
  directory the run creates, and once both models have loaded and the output directory
  has been created, the exit code is 1, the error stream gains exactly the message
  naming the path, and no file is written; the output directory is created.
\<close>

theorem main_exit_codes:
  "fst (main X w a) =
     (case fst (main_body X w a) of
        Inr r \<Rightarrow> Inr 0
      | Inl e \<Rightarrow> if cls e = KeyboardInterrupt then Inr 130
                 else if is_Exception (cls e) then Inr 1 else Inl e)
   \<and> (whisper_load_model X (arg_whisper_model a) (select_device X (arg_device a)) = None
      \<and> gpt2_from_pretrained X (arg_gpt2_model a) (select_device X (arg_device a)) = None
      \<and> \<not> list_ex (\<lambda>q. files w q \<noteq> None) (ancestors (resolve_output_dir X (arg_output_dir a)))
      \<and> \<not> os_path_exists X w (arg_audio_file a)
      \<and> path_parts X (arg_audio_file a) \<notin> set (ancestors (resolve_output_dir X (arg_output_dir a)))
      \<longrightarrow>
        fst (main X w a) = Inr 1
        \<and> stderr (snd (main X w a))
            = stderr w @ [newline # ''Error: Audio file not found: '' @ arg_audio_file a]
        \<and> contains (last (stderr (snd (main X w a)))) (arg_audio_file a)
        \<and> files (snd (main X w a)) = files w
        \<and> dirs (snd (main X w a))
            = dirs w \<union> set (ancestors (resolve_output_dir X (arg_output_dir a))))"
proof (intro conjI impI)
  show "fst (main X w a) =
     (case fst (main_body X w a) of
        Inr r \<Rightarrow> Inr 0
      | Inl e \<Rightarrow> if cls e = KeyboardInterrupt then Inr 130
                 else if is_Exception (cls e) then Inr 1 else Inl e)"
    by (rule main_code)
next
  assume h: "whisper_load_model X (arg_whisper_model a) (select_device X (arg_device a)) = None
      \<and> gpt2_from_pretrained X (arg_gpt2_model a) (select_device X (arg_device a)) = None
      \<and> \<not> list_ex (\<lambda>q. files w q \<noteq> None) (ancestors (resolve_output_dir X (arg_output_dir a)))
      \<and> \<not> os_path_exists X w (arg_audio_file a)
      \<and> path_parts X (arg_audio_file a) \<notin> set (ancestors (resolve_output_dir X (arg_output_dir a)))"
  then obtain w1 where b: "main_body X w a
           = (Inl (Exn FileNotFoundError (''Audio file not found: '' @ arg_audio_file a)), w1)"
    and f: "files w1 = files w" and e: "stderr w1 = stderr w"
    and d: "dirs w1 = dirs w \<union> set (ancestors (resolve_output_dir X (arg_output_dir a)))"
    using main_body_missing[of X a w] by blast
  have m: "main X w a
      = (Inr 1, eprint w1 (newline # ''Error: '' @ ''Audio file not found: '' @ arg_audio_file a))"
    by (simp add: main_def b)
  show "fst (main X w a) = Inr 1" by (simp add: m)
  show "stderr (snd (main X w a))
            = stderr w @ [newline # ''Error: Audio file not found: '' @ arg_audio_file a]"
    by (simp add: m eprint_def e)
  have "contains ((newline # ''Error: Audio file not found: '') @ arg_audio_file a) (arg_audio_file a)"
    by (rule contains_suffix)
  then show "contains (last (stderr (snd (main X w a)))) (arg_audio_file a)"
    by (simp add: m eprint_def)
  show "files (snd (main X w a)) = files w" by (simp add: m eprint_def f)
  show "dirs (snd (main X w a))
            = dirs w \<union> set (ancestors (resolve_output_dir X (arg_output_dir a)))"
    by (simp add: m eprint_def d)
qed

theorem main_exit_codes_witness:
  "\<not> os_path_exists ex_externals ex_world (arg_audio_file ex_args)
   \<and> fst (main ex_externals ex_world ex_args) = Inr 1
   \<and> stderr (snd (main ex_externals ex_world ex_args))
       = [newline # ''Error: Audio file not found: does_not_exist.wav'']
   \<and> files (snd (main ex_externals ex_world ex_args)) = files ex_world
   \<and> dirs (snd (main ex_externals ex_world ex_args)) = {[''out'']}"
proof -
  have h: "whisper_load_model ex_externals (arg_whisper_model ex_args)
             (select_device ex_externals (arg_device ex_args)) = None
      \<and> gpt2_from_pretrained ex_externals (arg_gpt2_model ex_args)
             (select_device ex_externals (arg_device ex_args)) = None
      \<and> \<not> list_ex (\<lambda>q. files ex_world q \<noteq> None)
             (ancestors (resolve_output_dir ex_externals (arg_output_dir ex_args)))
      \<and> \<not> os_path_exists ex_externals ex_world (arg_audio_file ex_args)
      \<and> path_parts ex_externals (arg_audio_file ex_args)
           \<notin> set (ancestors (resolve_output_dir ex_externals (arg_output_dir ex_args)))"
    by (simp add: ex_externals_def ex_args_def ex_world_def resolve_output_dir_def ancestors_def
        os_path_exists_def path_exists_def is_dir_def)
  have anc: "set (ancestors (resolve_output_dir ex_externals (arg_output_dir ex_args))) = {[''out'']}"
    by (simp add: ex_externals_def ex_args_def resolve_output_dir_def ancestors_def)
  from main_exit_codes[of ex_externals ex_world ex_args] h
  have "fst (main ex_externals ex_world ex_args) = Inr 1
        \<and> stderr (snd (main ex_externals ex_world ex_args))
            = stderr ex_world @ [newline # ''Error: Audio file not found: '' @ arg_audio_file ex_args]
        \<and> files (snd (main ex_externals ex_world ex_args)) = files ex_world
        \<and> dirs (snd (main ex_externals ex_world ex_args))
            = dirs ex_world \<union> set (ancestors (resolve_output_dir ex_externals (arg_output_dir ex_args)))"
    by blast
  then show ?thesis using h unfolding anc by (simp add: ex_world_def ex_args_def)
qed

text \<open>C6 as stated fails when the speech model cannot be loaded: the input file is
  missing, the exit code is 1, and the only message on the error stream is about the
  model and does not contain the path.\<close>

theorem missing_file_message_counterexample:
  "\<not> os_path_exists offline_externals ex_world (arg_audio_file ex_args)
   \<and> fst (main offline_externals ex_world ex_args) = Inr 1
   \<and> stderr (snd (main offline_externals ex_world ex_args))
       = [newline # ''Error: Failed to load Whisper model: download failed'']
   \<and> \<not> contains (newline # ''Error: Failed to load Whisper model: download failed'')
         (arg_audio_file ex_args)"
proof -
  have 1: "\<not> os_path_exists offline_externals ex_world (arg_audio_file ex_args)"
    by (simp add: offline_externals_def ex_externals_def ex_args_def ex_world_def
        os_path_exists_def path_exists_def is_dir_def)
  have 2: "main offline_externals ex_world ex_args
      = (Inr 1, eprint (print (print ex_world ''Using device: cpu'')
                          ''Loading Whisper model (base)...'')
                  (newline # ''Error: Failed to load Whisper model: download failed''))"
    by (simp add: main_def main_body_def and_then_def init_extractor_def select_device_def
        reraise_def offline_externals_def ex_externals_def ex_args_def Let_def)
  have 3: "\<not> contains (newline # ''Error: Failed to load Whisper model: download failed'')
         (arg_audio_file ex_args)"
    by (simp add: contains_def ex_args_def)
  from 1 2 3 show ?thesis by (simp add: eprint_def print_def ex_world_def)
qed

section \<open>The embedding extractor\<close>

lemma torch_stack_same:
  assumes "list_all (\<lambda>u. tshape u = tshape t) rest"
  shows "torch_stack (t # rest)
       = Inr \<lparr>tshape = length (t # rest) # tshape t,
               telem = (\<lambda>idx. case idx of [] \<Rightarrow> 0 | i # r \<Rightarrow> telem ((t # rest) ! i) r)\<rparr>"
  using assms by (simp add: torch_stack_def)

lemma squeeze_unit:
  assumes "d < length (tshape t)" "tshape t ! d = 1"
  shows "squeeze t d
       = Inr \<lparr>tshape = take d (tshape t) @ drop (Suc d) (tshape t),
               telem = (\<lambda>idx. telem t (take d idx @ 0 # drop d idx))\<rparr>"
  using assms by (simp add: squeeze_def)

lemma permute_ok:
  assumes "length ds = length (tshape t)" "distinct ds" "list_all (\<lambda>d. d < length ds) ds"
  shows "permute t ds
       = Inr \<lparr>tshape = map (\<lambda>d. tshape t ! d) ds,
               telem = (\<lambda>idx. telem t (map (\<lambda>j. idx ! position_of j ds) [0..<length ds]))\<rparr>"
  using assms by (simp add: permute_def)

lemma reorder_102:
  "map (\<lambda>j. [t, l, k] ! position_of j [1, 0, 2]) [0..<length [1, 0, 2 :: nat]] = [l, t, k]"
  by (simp add: position_of_def upt_rec)

lemma extract_from_hidden_states:
  assumes fw: "gpt2_forward X (tokenizer_call X txt) = Inr hs"
    and len: "length hs = Suc (config_n_layer X)"
    and pos: "0 < config_n_layer X"
    and shp: "\<forall>h\<in>set hs. tshape h = [1, length (tokenizer_call X txt), hidden]"
  shows "\<exists>w1 embeddings tokens.
           extract_gpt2_embeddings X w txt = (Inr (embeddings, tokens), w1)
         \<and> tokens = map (\<lambda>token_id. tokenizer_decode X [token_id]) (tokenizer_call X txt)
         \<and> shape0 embeddings = length (tokenizer_call X txt)
         \<and> shape1 embeddings = config_n_layer X
         \<and> shape2 embeddings = hidden
         \<and> (\<forall>t l k. elems embeddings t l k = telem (hs ! Suc l) [0, t, k])"
proof -
  let ?T = "length (tokenizer_call X txt)"
  obtain h0 rest where hs: "hs = h0 # rest" using len by (cases hs) auto
  then have lr: "length rest = config_n_layer X" using len by simp
  then obtain h1 more where rest: "rest = h1 # more" using pos by (cases rest) auto
  have all: "list_all (\<lambda>u. tshape u = tshape h1) more"
    using shp unfolding hs rest list_all_iff by simp
  have s1: "tshape h1 = [1, ?T, hidden]" using shp unfolding hs rest by simp
  define st where "st = \<lparr>tshape = length rest # tshape h1,
      telem = (\<lambda>idx. case idx of [] \<Rightarrow> 0 | i # r \<Rightarrow> telem (rest ! i) r)\<rparr>"
  have st: "torch_stack (drop 1 hs) = Inr st"
    using torch_stack_same[OF all] unfolding st_def hs rest by simp
  have st_shape: "tshape st = [length rest, 1, ?T, hidden]" by (simp add: st_def s1)
  have st_elem: "telem st (i # r) = telem (rest ! i) r" for i r by (simp add: st_def)
  define sq where "sq = \<lparr>tshape = take 1 (tshape st) @ drop (Suc 1) (tshape st),
      telem = (\<lambda>idx. telem st (take 1 idx @ 0 # drop 1 idx))\<rparr>"
  have sq: "squeeze st 1 = Inr sq"
    unfolding sq_def by (rule squeeze_unit) (simp_all add: st_shape)
  have sq_shape: "tshape sq = [length rest, ?T, hidden]" by (simp add: sq_def st_shape)
  have sq_elem: "telem sq [l, t, k] = telem (rest ! l) [0, t, k]" for l t k
    by (simp add: sq_def st_elem)
  define pm where "pm = \<lparr>tshape = map (\<lambda>d. tshape sq ! d) [1, 0, 2],
      telem = (\<lambda>idx. telem sq (map (\<lambda>j. idx ! position_of j [1, 0, 2]) [0..<length [1, 0, 2 :: nat]]))\<rparr>"
  have pm: "permute sq [1, 0, 2] = Inr pm"
    unfolding pm_def by (rule permute_ok) (simp_all add: sq_shape)
  have pm_shape: "tshape pm = [?T, length rest, hidden]" by (simp add: pm_def sq_shape)
  have pm_elem: "telem pm [t, l, k] = telem (rest ! l) [0, t, k]" for l t k
    unfolding pm_def using reorder_102[of t l k] sq_elem[of l t k] by simp
  have el: "elems (numpy3 pm) t l k = telem (hs ! Suc l) [0, t, k]" for t l k
    by (simp add: numpy3_def pm_elem hs)
  have "\<exists>w1. extract_gpt2_embeddings X w txt
      = (Inr (numpy3 pm, map (\<lambda>token_id. tokenizer_decode X [token_id]) (tokenizer_call X txt)), w1)"
    unfolding extract_gpt2_embeddings_def Let_def fw sum.case st sq pm by blast
  moreover have "shape0 (numpy3 pm) = ?T" "shape1 (numpy3 pm) = config_n_layer X"
    "shape2 (numpy3 pm) = hidden"
    by (simp_all add: numpy3_def pm_shape lr)
  ultimately show ?thesis using el by blast
qed


text \<open>
  C7. When the language model returns its hidden states as the library promises (one more
  state than the model has blocks, at least one block, each state of shape
  \<open>(1, token count, hidden size)\<close>), the extractor returns an array whose first dimension
  is the number of tokens of the text it was given, which is also the length of the token
  list it returns, whose second dimension is the number of blocks, and whose layer \<open>l\<close> is
  hidden state \<open>l + 1\<close>: the state of the embedding layer is left out and the blocks keep
  their order.
\<close>

theorem extractor_tensor_shape:
  assumes "gpt2_forward X (tokenizer_call X txt) = Inr hs"
    and "length hs = Suc (config_n_layer X)"
    and "0 < config_n_layer X"
    and "\<forall>h\<in>set hs. tshape h = [1, length (tokenizer_call X txt), hidden]"
  shows "\<exists>w1 embeddings tokens.
           extract_gpt2_embeddings X w txt = (Inr (embeddings, tokens), w1)
         \<and> shape0 embeddings = length (tokenizer_call X txt)
         \<and> length tokens = shape0 embeddings
         \<and> shape1 embeddings = config_n_layer X
         \<and> shape2 embeddings = hidden
         \<and> (\<forall>t l k. elems embeddings t l k = telem (hs ! Suc l) [0, t, k])"
proof -
  from extract_from_hidden_states[OF assms, of w] obtain w1 embeddings tokens where
    r: "extract_gpt2_embeddings X w txt = (Inr (embeddings, tokens), w1)"
    and t: "tokens = map (\<lambda>token_id. tokenizer_decode X [token_id]) (tokenizer_call X txt)"
    and s: "shape0 embeddings = length (tokenizer_call X txt)"
      "shape1 embeddings = config_n_layer X" "shape2 embeddings = hidden"
    and e: "\<forall>t l k. elems embeddings t l k = telem (hs ! Suc l) [0, t, k]"
    by blast
  from t s(1) have "length tokens = shape0 embeddings" by simp
  with r s e show ?thesis by blast
qed

theorem extractor_tensor_shape_witness:
  "\<exists>w1 embeddings tokens.
     extract_gpt2_embeddings ex_externals ex_world '' hi'' = (Inr (embeddings, tokens), w1)
     \<and> shape0 embeddings = 3 \<and> length tokens = 3 \<and> shape1 embeddings = 1
     \<and> shape2 embeddings = 1 \<and> elems embeddings 2 0 0 = 1"
proof -
  let ?hs = "replicate 2 \<lparr>tshape = [1, 3, 1], telem = (\<lambda>idx. 1 :: real)\<rparr>"
  have ids: "length (tokenizer_call ex_externals '' hi'') = 3"
    by (simp add: ex_externals_def)
  have 1: "gpt2_forward ex_externals (tokenizer_call ex_externals '' hi'') = Inr ?hs"
    by (simp add: ex_externals_def)
  have 2: "length ?hs = Suc (config_n_layer ex_externals)"
    by (simp add: ex_externals_def)
  have 3: "0 < config_n_layer ex_externals"
    by (simp add: ex_externals_def)
  have 4: "\<forall>h\<in>set ?hs. tshape h = [1, length (tokenizer_call ex_externals '' hi''), 1]"
    unfolding ids by simp
  have 5: "telem (?hs ! Suc 0) [0, 2, 0] = 1"
    by (simp add: numeral_2_eq_2)
  from extractor_tensor_shape[OF 1 2 3 4, of ex_world] show ?thesis
    unfolding ids using 5 by (auto simp: ex_externals_def)
qed

section \<open>The exporter inside the pipeline\<close>






























end
